theory Spec2Isabelle
  imports Main
begin

section \<open>Strings of the host language\<close>

text \<open>
  A string of the program is a sequence of UTF-16 code units; \<open>length\<close>, \<open>substring\<close>
  and \<open>trim\<close> count code units. ASCII literals of the source are written \<open>asc ''...''\<close>,
  the Cyrillic ones as explicit code units.
\<close>

type_synonym jsstring = "nat list"

definition asc :: "string \<Rightarrow> jsstring" where
  "asc = map of_char"

text \<open>\<open>s.substring(0, n)\<close> for \<open>n \<ge> 0\<close>.\<close>

definition substring0 :: "jsstring \<Rightarrow> nat \<Rightarrow> jsstring" where
  "substring0 s n = take n s"

text \<open>\<open>s.includes(t)\<close>: \<open>t\<close> occurs in \<open>s\<close> as a contiguous run of code units.\<close>

fun str_includes :: "jsstring \<Rightarrow> jsstring \<Rightarrow> bool" where
  "str_includes [] t = (t = [])"
| "str_includes (c # cs) t = (take (length t) (c # cs) = t \<or> str_includes cs t)"

text \<open>
  White space and line terminators removed by \<open>String.prototype.trim\<close>
  (ECMAScript \<open>WhiteSpace\<close> and \<open>LineTerminator\<close>).
\<close>

definition is_js_space :: "nat \<Rightarrow> bool" where
  "is_js_space c \<longleftrightarrow>
     c = 0x09 \<or> c = 0x0A \<or> c = 0x0B \<or> c = 0x0C \<or> c = 0x0D \<or> c = 0x20 \<or> c = 0xA0 \<or>
     c = 0x1680 \<or> (0x2000 \<le> c \<and> c \<le> 0x200A) \<or> c = 0x2028 \<or> c = 0x2029 \<or>
     c = 0x202F \<or> c = 0x205F \<or> c = 0x3000 \<or> c = 0xFEFF"

definition trim :: "jsstring \<Rightarrow> jsstring" where
  "trim s = rev (dropWhile is_js_space (rev (dropWhile is_js_space s)))"

text \<open>\<open>s.split('\n')\<close>: never the empty array; \<open>''.split('\n')\<close> is \<open>['']\<close>.\<close>

fun split_nl :: "jsstring \<Rightarrow> jsstring list" where
  "split_nl [] = [[]]"
| "split_nl (c # cs) =
     (if c = 0x0A then [] # split_nl cs
      else (case split_nl cs of [] \<Rightarrow> [[c]] | l # ls \<Rightarrow> (c # l) # ls))"

text \<open>\<open>parts.join(sep)\<close> on strings.\<close>

fun join_with :: "jsstring \<Rightarrow> jsstring list \<Rightarrow> jsstring" where
  "join_with sep [] = []"
| "join_with sep [s] = s"
| "join_with sep (s # t # ss) = s @ sep @ join_with sep (t # ss)"

text \<open>
  Upper case on the ASCII letters. \<open>String.prototype.toUpperCase\<close> itself follows the
  Unicode case tables and is a parameter of the model (\<open>string_toUpperCase\<close> below);
  this function is the one used in the examples, whose strings are ASCII.
\<close>

definition upper_unit :: "nat \<Rightarrow> nat" where
  "upper_unit c = (if 0x61 \<le> c \<and> c \<le> 0x7A then c - 0x20 else c)"

definition ascii_toUpperCase :: "jsstring \<Rightarrow> jsstring" where
  "ascii_toUpperCase s = map upper_unit s"

section \<open>JSON values and \<open>JSON.parse\<close>\<close>

text \<open>
  The value \<open>JSON.parse\<close> builds. A number keeps its source text: its conversion to a
  double, and from there to a truth value or back to a string, is floating point and is
  left to the parameters \<open>number_truthy\<close> and \<open>number_toString\<close> below. Members of an
  object are in source order, duplicates included.
\<close>

datatype json =
    JNull
  | JBool bool
  | JNumber jsstring
  | JString jsstring
  | JArray "json list"
  | JObject "(jsstring \<times> json) list"

datatype token =
    LBrace | RBrace | LBracket | RBracket | Colon | Comma
  | TString jsstring | TNumber jsstring | TTrue | TFalse | TNull

datatype js_error = SyntaxError | TypeError | Error jsstring

definition is_json_ws :: "nat \<Rightarrow> bool" where
  "is_json_ws c \<longleftrightarrow> c = 0x20 \<or> c = 0x09 \<or> c = 0x0A \<or> c = 0x0D"

definition is_digit :: "nat \<Rightarrow> bool" where
  "is_digit c \<longleftrightarrow> 0x30 \<le> c \<and> c \<le> 0x39"

definition hex_digit :: "nat \<Rightarrow> nat option" where
  "hex_digit c =
     (if 0x30 \<le> c \<and> c \<le> 0x39 then Some (c - 0x30)
      else if 0x41 \<le> c \<and> c \<le> 0x46 then Some (c - 0x41 + 10)
      else if 0x61 \<le> c \<and> c \<le> 0x66 then Some (c - 0x61 + 10)
      else None)"

definition hex4 :: "nat \<Rightarrow> nat \<Rightarrow> nat \<Rightarrow> nat \<Rightarrow> nat option" where
  "hex4 a b c d =
     (case (hex_digit a, hex_digit b, hex_digit c, hex_digit d) of
        (Some x, Some y, Some z, Some w) \<Rightarrow> Some (((x * 16 + y) * 16 + z) * 16 + w)
      | _ \<Rightarrow> None)"

text \<open>The escape after a backslash that stands for one code unit.\<close>

definition simple_escape :: "nat \<Rightarrow> nat option" where
  "simple_escape e =
     (if e = 0x22 then Some 0x22
      else if e = 0x5C then Some 0x5C
      else if e = 0x2F then Some 0x2F
      else if e = 0x62 then Some 0x08
      else if e = 0x66 then Some 0x0C
      else if e = 0x6E then Some 0x0A
      else if e = 0x72 then Some 0x0D
      else if e = 0x74 then Some 0x09
      else None)"

text \<open>
  The body of a string literal, after the opening quote: the decoded content (collected
  in reverse in \<open>acc\<close>) and the input after the closing quote.
\<close>

fun lex_string :: "jsstring \<Rightarrow> jsstring \<Rightarrow> (jsstring \<times> jsstring) option" where
  "lex_string acc [] = None"
| "lex_string acc (c # cs) =
     (if c = 0x22 then Some (rev acc, cs)
      else if c = 0x5C then
        (case cs of
           [] \<Rightarrow> None
         | e # cs1 \<Rightarrow>
             (if e = 0x75 then
                (case cs1 of
                   a # b # c' # d # cs2 \<Rightarrow>
                     (case hex4 a b c' d of
                        None \<Rightarrow> None
                      | Some u \<Rightarrow> lex_string (u # acc) cs2)
                 | _ \<Rightarrow> None)
              else
                (case simple_escape e of
                   None \<Rightarrow> None
                 | Some u \<Rightarrow> lex_string (u # acc) cs1)))
      else if c < 0x20 then None
      else lex_string (c # acc) cs)"

text \<open>
  A number token is the longest run of the characters a number can hold; the run must
  match the grammar \<open>-? (0 | [1-9][0-9]*) (. [0-9]+)? ([eE] [+-]? [0-9]+)?\<close>. In a
  well-formed text a number is followed by white space, a comma or a closing bracket,
  so the longest run is the number.
\<close>

definition is_number_char :: "nat \<Rightarrow> bool" where
  "is_number_char c \<longleftrightarrow>
     is_digit c \<or> c = 0x2D \<or> c = 0x2B \<or> c = 0x2E \<or> c = 0x65 \<or> c = 0x45"

definition valid_exponent :: "jsstring \<Rightarrow> bool" where
  "valid_exponent s =
     (case s of
        [] \<Rightarrow> True
      | c # r \<Rightarrow>
          (c = 0x65 \<or> c = 0x45) \<and>
          (let ds = (case r of [] \<Rightarrow> [] | g # r' \<Rightarrow> if g = 0x2B \<or> g = 0x2D then r' else r)
           in ds \<noteq> [] \<and> list_all is_digit ds))"

definition valid_fraction :: "jsstring \<Rightarrow> bool" where
  "valid_fraction s =
     (case s of
        [] \<Rightarrow> True
      | c # r \<Rightarrow>
          if c = 0x2E then takeWhile is_digit r \<noteq> [] \<and> valid_exponent (dropWhile is_digit r)
          else valid_exponent s)"

definition valid_number :: "jsstring \<Rightarrow> bool" where
  "valid_number s =
     (let u = (case s of [] \<Rightarrow> [] | c # r \<Rightarrow> if c = 0x2D then r else s)
      in (case takeWhile is_digit u of
            [] \<Rightarrow> False
          | d # ds \<Rightarrow> (d \<noteq> 0x30 \<or> ds = []) \<and> valid_fraction (dropWhile is_digit u)))"

lemma lex_string_shorter:
  "lex_string acc cs = Some (s, rest) \<Longrightarrow> length rest < length cs"
proof (induction acc cs rule: lex_string.induct)
  case (1 acc)
  then show ?case by simp
next
  case (2 acc c cs)
  then show ?case
    by (auto split: if_splits list.splits option.splits simp del: lex_string.simps
        simp add: lex_string.simps(2)[of acc c cs]) fastforce+
qed

function lex :: "jsstring \<Rightarrow> token list option" where
  "lex [] = Some []"
| "lex (c # cs) =
     (if is_json_ws c then lex cs
      else if c = 0x7B then map_option (Cons LBrace) (lex cs)
      else if c = 0x7D then map_option (Cons RBrace) (lex cs)
      else if c = 0x5B then map_option (Cons LBracket) (lex cs)
      else if c = 0x5D then map_option (Cons RBracket) (lex cs)
      else if c = 0x3A then map_option (Cons Colon) (lex cs)
      else if c = 0x2C then map_option (Cons Comma) (lex cs)
      else if c = 0x22 then
        (case lex_string [] cs of
           None \<Rightarrow> None
         | Some (s, rest) \<Rightarrow> map_option (Cons (TString s)) (lex rest))
      else if take 4 (c # cs) = asc ''true'' then map_option (Cons TTrue) (lex (drop 3 cs))
      else if take 5 (c # cs) = asc ''false'' then map_option (Cons TFalse) (lex (drop 4 cs))
      else if take 4 (c # cs) = asc ''null'' then map_option (Cons TNull) (lex (drop 3 cs))
      else if is_number_char c then
        (if valid_number (c # takeWhile is_number_char cs)
         then map_option (Cons (TNumber (c # takeWhile is_number_char cs)))
                (lex (dropWhile is_number_char cs))
         else None)
      else None)"
  by pat_completeness auto
termination
proof (relation "measure length", goal_cases)
  case 1
  show ?case by simp
next
  case (9 c cs x2 s rest)
  then show ?case using lex_string_shorter[of "[]" cs s rest] by simp
next
  case (13 c cs)
  show ?case by (simp add: length_dropWhile_le less_Suc_eq_le)
qed simp_all


text \<open>
  The parser proper runs over the tokens with an explicit stack of the containers that
  are still open, so it is a plain recursion over the token list.
\<close>

datatype frame =
    ArrayFrame "json list"
  | ObjectFrame "(jsstring \<times> json) list" "jsstring option"

datatype pmode =
    WantValue | WantValueOrClose | WantKey | WantKeyOrClose | WantColon | AfterValue
  | Done json

text \<open>A value is complete: it is the result, or it goes into the innermost open container.\<close>

fun complete :: "json \<Rightarrow> frame list \<Rightarrow> (frame list \<times> pmode) option" where
  "complete v [] = Some ([], Done v)"
| "complete v (ArrayFrame items # st) = Some (ArrayFrame (items @ [v]) # st, AfterValue)"
| "complete v (ObjectFrame members (Some k) # st) =
     Some (ObjectFrame (members @ [(k, v)]) None # st, AfterValue)"
| "complete v (ObjectFrame members None # st) = None"

definition scalar_of :: "token \<Rightarrow> json option" where
  "scalar_of t =
     (case t of
        TString s \<Rightarrow> Some (JString s)
      | TNumber n \<Rightarrow> Some (JNumber n)
      | TTrue \<Rightarrow> Some (JBool True)
      | TFalse \<Rightarrow> Some (JBool False)
      | TNull \<Rightarrow> Some JNull
      | _ \<Rightarrow> None)"

definition open_or_scalar :: "token \<Rightarrow> frame list \<Rightarrow> (frame list \<times> pmode) option" where
  "open_or_scalar t st =
     (if t = LBracket then Some (ArrayFrame [] # st, WantValueOrClose)
      else if t = LBrace then Some (ObjectFrame [] None # st, WantKeyOrClose)
      else (case scalar_of t of None \<Rightarrow> None | Some v \<Rightarrow> complete v st))"

definition close_array :: "frame list \<Rightarrow> (frame list \<times> pmode) option" where
  "close_array st =
     (case st of ArrayFrame items # st' \<Rightarrow> complete (JArray items) st' | _ \<Rightarrow> None)"

definition close_object :: "frame list \<Rightarrow> (frame list \<times> pmode) option" where
  "close_object st =
     (case st of ObjectFrame members None # st' \<Rightarrow> complete (JObject members) st' | _ \<Rightarrow> None)"

definition take_key :: "token \<Rightarrow> frame list \<Rightarrow> (frame list \<times> pmode) option" where
  "take_key t st =
     (case (t, st) of
        (TString k, ObjectFrame members None # st') \<Rightarrow>
          Some (ObjectFrame members (Some k) # st', WantColon)
      | _ \<Rightarrow> None)"

fun pstep :: "token \<Rightarrow> frame list \<times> pmode \<Rightarrow> (frame list \<times> pmode) option" where
  "pstep t (st, WantValue) = open_or_scalar t st"
| "pstep t (st, WantValueOrClose) =
     (if t = RBracket then close_array st else open_or_scalar t st)"
| "pstep t (st, WantKey) = take_key t st"
| "pstep t (st, WantKeyOrClose) =
     (if t = RBrace then close_object st else take_key t st)"
| "pstep t (st, WantColon) = (if t = Colon then Some (st, WantValue) else None)"
| "pstep t (st, AfterValue) =
     (if t = Comma then
        (case st of
           ArrayFrame items # st' \<Rightarrow> Some (st, WantValue)
         | ObjectFrame members k # st' \<Rightarrow> Some (st, WantKey)
         | [] \<Rightarrow> None)
      else if t = RBracket then close_array st
      else if t = RBrace then close_object st
      else None)"
| "pstep t (st, Done v) = None"

fun prun :: "token list \<Rightarrow> frame list \<times> pmode \<Rightarrow> json option" where
  "prun [] (st, m) = (case m of Done v \<Rightarrow> Some v | _ \<Rightarrow> None)"
| "prun (t # ts) c = (case pstep t c of None \<Rightarrow> None | Some c' \<Rightarrow> prun ts c')"

text \<open>\<open>JSON.parse(text)\<close> without a reviver: \<open>None\<close> is the \<open>SyntaxError\<close> it throws.\<close>

definition JSON_parse :: "jsstring \<Rightarrow> json option" where
  "JSON_parse s = (case lex s of None \<Rightarrow> None | Some ts \<Rightarrow> prun ts ([], WantValue))"

section \<open>Values of the host language, as far as the decoder meets them\<close>

text \<open>
  What the implementation of the language fixes and the source does not: the truth
  value and the decimal form of the double a number text denotes;
  \<open>String.prototype.toUpperCase\<close>, with its Unicode case tables; and what a function
  member of \<open>Object.prototype\<close> does when it is called on a string with no receiver
  (\<open>inherited_call name argument\<close>: the string it yields, or the error it throws).
\<close>

record js_runtime =
  number_truthy :: "jsstring \<Rightarrow> bool"
  number_toString :: "jsstring \<Rightarrow> jsstring"
  string_toUpperCase :: "jsstring \<Rightarrow> jsstring"
  inherited_call :: "jsstring \<Rightarrow> jsstring \<Rightarrow> js_error + jsstring"

text \<open>
  \<open>v.name\<close> for a name that no prototype defines (\<open>type\<close>, \<open>part\<close>, \<open>text\<close>):
  \<open>None\<close> is \<open>undefined\<close>; on \<open>null\<close> the access throws. \<open>JSON.parse\<close> keeps the last
  of several members with one key.
\<close>

definition get_prop :: "json \<Rightarrow> jsstring \<Rightarrow> js_error + json option" where
  "get_prop v name =
     (case v of
        JNull \<Rightarrow> Inl TypeError
      | JObject members \<Rightarrow> Inr (map_of (rev members) name)
      | _ \<Rightarrow> Inr None)"

text \<open>\<open>v?.name\<close> on a value that may be \<open>undefined\<close>.\<close>

definition get_prop_opt :: "json option \<Rightarrow> jsstring \<Rightarrow> json option" where
  "get_prop_opt v name =
     (case v of
        None \<Rightarrow> None
      | Some JNull \<Rightarrow> None
      | Some (JObject members) \<Rightarrow> map_of (rev members) name
      | Some _ \<Rightarrow> None)"

definition truthy :: "js_runtime \<Rightarrow> json option \<Rightarrow> bool" where
  "truthy rt v =
     (case v of
        None \<Rightarrow> False
      | Some JNull \<Rightarrow> False
      | Some (JBool b) \<Rightarrow> b
      | Some (JNumber n) \<Rightarrow> number_truthy rt n
      | Some (JString s) \<Rightarrow> s \<noteq> []
      | Some (JArray xs) \<Rightarrow> True
      | Some (JObject ms) \<Rightarrow> True)"

text \<open>
  \<open>ToString\<close>, as \<open>Array.prototype.join\<close> applies it to an element. An array joins its
  elements with a comma, \<open>null\<close> elements as the empty string. A plain object gives
  \<open>[object Object]\<close> through \<open>Object.prototype.toString\<close>, unless it has a member
  named \<open>toString\<close> of its own: that member is no function, neither it nor \<open>valueOf\<close>
  yields a primitive, and the conversion throws a \<open>TypeError\<close> (\<open>None\<close>).
\<close>

fun ToString :: "js_runtime \<Rightarrow> json \<Rightarrow> jsstring option" where
  "ToString rt JNull = Some (asc ''null'')"
| "ToString rt (JBool b) = Some (if b then asc ''true'' else asc ''false'')"
| "ToString rt (JNumber n) = Some (number_toString rt n)"
| "ToString rt (JString s) = Some s"
| "ToString rt (JArray xs) =
     map_option (join_with (asc '',''))
       (those (map (\<lambda>x. if x = JNull then Some [] else ToString rt x) xs))"
| "ToString rt (JObject ms) =
     (if map_of (rev ms) (asc ''toString'') \<noteq> None then None
      else Some (asc ''[object Object]''))"

text \<open>\<open>parts.join('')\<close> on the collected values; \<open>Inl TypeError\<close> when a conversion throws.\<close>

definition join_empty :: "js_runtime \<Rightarrow> json list \<Rightarrow> js_error + jsstring" where
  "join_empty rt parts =
     (case those (map (ToString rt) parts) of
        None \<Rightarrow> Inl TypeError
      | Some ss \<Rightarrow> Inr (concat ss))"

section \<open>The decoder: \<open>parseJsonOutput\<close>\<close>

text \<open>
  The loop over the lines, with \<open>textParts\<close> as the accumulator. A \<open>SyntaxError\<close> of
  \<open>JSON.parse\<close> and the \<open>TypeError\<close> of \<open>event.type\<close> on \<open>null\<close> are both caught by the
  \<open>try\<close> around the body; the final \<open>join\<close> is outside it.
\<close>

fun parse_lines :: "js_runtime \<Rightarrow> jsstring list \<Rightarrow> json list \<Rightarrow> json list" where
  "parse_lines rt [] textParts = textParts"
| "parse_lines rt (line # lines) textParts =
     (let trimmed = trim line in
      if trimmed = [] then parse_lines rt lines textParts
      else
        (case JSON_parse trimmed of
           None \<Rightarrow> parse_lines rt lines textParts
         | Some event \<Rightarrow>
             (case get_prop event (asc ''type'') of
                Inl e \<Rightarrow> parse_lines rt lines textParts
              | Inr ty \<Rightarrow>
                  (let payload = get_prop_opt (get_prop_opt (Some event) (asc ''part'')) (asc ''text'')
                   in if ty = Some (JString (asc ''text'')) \<and> truthy rt payload
                      then (case payload of
                              Some v \<Rightarrow> parse_lines rt lines (textParts @ [v])
                            | None \<Rightarrow> parse_lines rt lines textParts)
                      else parse_lines rt lines textParts))))"

definition parseJsonOutput :: "js_runtime \<Rightarrow> jsstring \<Rightarrow> js_error + jsstring" where
  "parseJsonOutput rt output = join_empty rt (parse_lines rt (split_nl (trim output)) [])"


section \<open>Data model\<close>

text \<open>
  The \<open>number\<close> fields that hold a count or a span of milliseconds are integers here;
  an optional field is an \<open>option\<close>.
\<close>

datatype error_code = TIMEOUT | EMPTY_RESPONSE | SPAWN_ERROR | PARSE_ERROR

record agent_result =
  agent :: jsstring
  "text" :: jsstring
  success :: bool
  duration :: "int option"
  errorCode :: "error_code option"
  attempt :: "int option"

text \<open>A prompt of an expert: a string with \<open>${task}\<close> placeholders, or a function.\<close>

datatype prompt_spec = PromptString jsstring | PromptFunction "jsstring \<Rightarrow> jsstring"

record expert_config =
  name :: jsstring
  prompt :: "prompt_spec option"
  timeout :: "int option"
  retries :: "int option"
  enabled :: "bool option"

record chair_config =
  chair_agent :: jsstring
  chair_timeout :: "int option"
  promptTemplate :: "(js_runtime \<Rightarrow> jsstring \<Rightarrow> agent_result list \<Rightarrow> jsstring) option"
  maxExpertTextLength :: "int option"

record timeout_config =
  timeouts_expert :: int
  timeouts_chair :: int
  timeouts_shutdown :: int

record retry_config =
  expertRetries :: int
  chairRetries :: int
  delay :: int
  exponentialBackoff :: bool

record consilium_result =
  result_text :: jsstring
  result_experts :: "agent_result list"
  result_chair :: agent_result
  totalTime :: int
  parallelTime :: int
  result_success :: bool
  metadata :: "(jsstring \<times> json) list option"

text \<open>
  A hook is a function of the caller. Of what it does, the engine sees whether it
  returns or throws: \<open>None\<close> is a normal return, \<open>Some e\<close> the error thrown (or the
  rejection of the promise it returned). The configuration that \<open>onStart\<close> receives
  and the context that \<open>onError\<close> receives are left out of their arguments.
\<close>

type_synonym 'a hook = "'a \<Rightarrow> js_error option"

record consilium_hooks =
  onStart :: "jsstring hook option"
  onExpertStart :: "(jsstring \<times> jsstring) hook option"
  onExpertEnd :: "agent_result hook option"
  onExpertError :: "agent_result hook option"
  onChairStart :: "(jsstring \<times> agent_result list) hook option"
  onChairEnd :: "agent_result hook option"
  onChairError :: "agent_result hook option"
  onEnd :: "consilium_result hook option"
  onError :: "js_error hook option"

record consilium_config =
  experts :: "expert_config list"
  chair :: chair_config
  timeouts :: timeout_config
  retry :: retry_config
  output_file :: "jsstring option"
  hooks :: "consilium_hooks option"

section \<open>The cancellation registry\<close>

text \<open>
  The module state of the agents module: the flag \<open>cancelled\<close> and the set
  \<open>activeProcesses\<close>, kept in insertion order as the set of the language is. The
  field \<open>effects\<close> is the trace of what the module does to the outside: \<open>Spawn c k p\<close>, a
  process with handle \<open>c\<close> started for attempt \<open>k\<close> with prompt \<open>p\<close>; \<open>Settle c\<close>, the
  launch of \<open>c\<close> is over (its promise resolved, or its handler threw); \<open>Kill c\<close>, the termination signal sent to
  \<open>c\<close>; \<open>Sleep d\<close>, a timer of \<open>d\<close> milliseconds awaited.
\<close>

datatype effect = Spawn nat int jsstring | Settle nat | Kill nat | Sleep int

record world =
  cancelled :: bool
  activeProcesses :: "nat list"
  effects :: "effect list"

text \<open>What a call has added to the trace.\<close>

definition effects_since :: "world \<Rightarrow> world \<Rightarrow> effect list" where
  "effects_since w w' = drop (length (effects w)) (effects w')"

definition set_add :: "nat \<Rightarrow> nat list \<Rightarrow> nat list" where
  "set_add x xs = (if x \<in> set xs then xs else xs @ [x])"

definition set_delete :: "nat \<Rightarrow> nat list \<Rightarrow> nat list" where
  "set_delete x xs = removeAll x xs"

definition cancel :: "world \<Rightarrow> world" where
  "cancel w =
     w\<lparr>cancelled := True,
       activeProcesses := [],
       effects := effects w @ map Kill (activeProcesses w)\<rparr>"

definition resetCancel :: "world \<Rightarrow> world" where
  "resetCancel w = w\<lparr>cancelled := False\<rparr>"

definition isCancelled :: "world \<Rightarrow> bool" where
  "isCancelled w = cancelled w"

text \<open>
  While a call is suspended at an \<open>await\<close>, other code runs: a signal handler or the
  owner of the instance may call \<open>cancel\<close>, another round may call \<open>resetCancel\<close>.
\<close>

datatype ext_call = CallCancel | CallResetCancel

fun ext_step :: "ext_call \<Rightarrow> world \<Rightarrow> world" where
  "ext_step CallCancel w = cancel w"
| "ext_step CallResetCancel w = resetCancel w"

definition ext_run :: "ext_call list \<Rightarrow> world \<Rightarrow> world" where
  "ext_run cs w = fold ext_step cs w"

section \<open>The retry delay\<close>

text \<open>
  \<open>Math.pow(2, attempt)\<close> for \<open>attempt \<ge> 0\<close>; the one caller passes the index of the
  attempt before the one it is about to start.
\<close>

definition calculateRetryDelay :: "int \<Rightarrow> int \<Rightarrow> bool \<Rightarrow> int" where
  "calculateRetryDelay att baseDelay backoff =
     (if \<not> backoff then baseDelay
      else baseDelay * 2 ^ nat att)"

section \<open>The launcher: \<open>callAgentOnce\<close>\<close>

text \<open>
  What reaches the handlers of one launch, in the order of arrival: output of the child,
  its \<open>close\<close> and \<open>error\<close> events, the timer of the launch, and calls from outside.
\<close>

datatype proc_event =
    StdoutData jsstring
  | StderrData jsstring
  | Close
  | ProcError jsstring
  | TimerFired
  | External ext_call

text \<open>
  How a call of the engine fails to return: its promise is rejected with an error; or an
  error is thrown inside an event listener, where nothing catches it, so that the
  promise is never settled and the uncaught error ends the process.
\<close>

datatype failure = Rejected js_error | Uncaught js_error

text \<open>
  The variables of the closure. \<open>outcome\<close> is what the promise was resolved with
  (\<open>Inr\<close>); the launcher never rejects it. An error thrown by the decoder inside the
  \<open>close\<close> listener leaves the promise unsettled and is recorded as \<open>Inl (Uncaught e)\<close>.
  The flag \<open>finished\<close> of the source is set by every handler before it does either,
  so it is read off \<open>outcome\<close>.
\<close>

record launch =
  stdout :: jsstring
  stderr :: jsstring
  outcome :: "(failure + agent_result) option"

definition finished :: "launch \<Rightarrow> bool" where
  "finished l \<longleftrightarrow> outcome l \<noteq> None"

definition timeout_result :: "jsstring \<Rightarrow> int \<Rightarrow> agent_result" where
  "timeout_result agentName att =
     \<lparr>agent = agentName,
      text = asc ''['' @ [0x422, 0x430, 0x439, 0x43C, 0x430, 0x443, 0x442] @ asc '' '' @ agentName @ asc '']'',
      success = False, duration = None, errorCode = Some TIMEOUT, attempt = Some att\<rparr>"

definition empty_result :: "jsstring \<Rightarrow> jsstring \<Rightarrow> int \<Rightarrow> agent_result" where
  "empty_result agentName err att =
     (let errorDetails = (if err \<noteq> [] then asc '' stderr: '' @ substring0 err 500 else [])
      in \<lparr>agent = agentName,
          text = asc ''['' @ [0x410, 0x433, 0x435, 0x43D, 0x442] @ asc '' '' @ agentName @
                 asc '' '' @ [0x43D, 0x435] @ asc '' '' @ [0x432, 0x435, 0x440, 0x43D, 0x443, 0x43B] @
                 asc '' '' @ [0x442, 0x435, 0x43A, 0x441, 0x442] @ asc '']'' @ errorDetails,
          success = False, duration = None, errorCode = Some EMPTY_RESPONSE,
          attempt = Some att\<rparr>)"

definition success_result :: "jsstring \<Rightarrow> jsstring \<Rightarrow> int \<Rightarrow> agent_result" where
  "success_result agentName txt att =
     \<lparr>agent = agentName, text = txt, success = True, duration = None, errorCode = None,
      attempt = Some att\<rparr>"

definition spawn_error_result :: "jsstring \<Rightarrow> jsstring \<Rightarrow> int \<Rightarrow> agent_result" where
  "spawn_error_result agentName message att =
     \<lparr>agent = agentName,
      text = asc ''['' @ [0x41E, 0x448, 0x438, 0x431, 0x43A, 0x430] @ asc '': '' @ message @ asc '']'',
      success = False, duration = None, errorCode = Some SPAWN_ERROR, attempt = Some att\<rparr>"

text \<open>The timer callback of the launch.\<close>

definition on_timeout :: "jsstring \<Rightarrow> int \<Rightarrow> nat \<Rightarrow> launch \<times> world \<Rightarrow> launch \<times> world" where
  "on_timeout agentName att child lw =
     (case lw of (l, w) \<Rightarrow>
        if finished l then (l, w)
        else (l\<lparr>outcome := Some (Inr (timeout_result agentName att))\<rparr>,
              w\<lparr>activeProcesses := set_delete child (activeProcesses w),
                effects := effects w @ [Kill child]\<rparr>))"

text \<open>The \<open>close\<close> handler.\<close>

definition on_close ::
  "js_runtime \<Rightarrow> jsstring \<Rightarrow> int \<Rightarrow> nat \<Rightarrow> launch \<times> world \<Rightarrow> launch \<times> world" where
  "on_close rt agentName att child lw =
     (case lw of (l, w) \<Rightarrow>
        if finished l then (l, w)
        else
          (let w' = w\<lparr>activeProcesses := set_delete child (activeProcesses w)\<rparr> in
           case parseJsonOutput rt (stdout l) of
             Inl e \<Rightarrow> (l\<lparr>outcome := Some (Inl (Uncaught e))\<rparr>, w')
           | Inr txt \<Rightarrow>
               if txt = [] then
                 (l\<lparr>outcome := Some (Inr (empty_result agentName (stderr l) att))\<rparr>, w')
               else (l\<lparr>outcome := Some (Inr (success_result agentName txt att))\<rparr>, w')))"

text \<open>The \<open>error\<close> handler.\<close>

definition on_error ::
  "jsstring \<Rightarrow> int \<Rightarrow> nat \<Rightarrow> jsstring \<Rightarrow> launch \<times> world \<Rightarrow> launch \<times> world" where
  "on_error agentName att child message lw =
     (case lw of (l, w) \<Rightarrow>
        if finished l then (l, w)
        else (l\<lparr>outcome := Some (Inr (spawn_error_result agentName message att))\<rparr>,
              w\<lparr>activeProcesses := set_delete child (activeProcesses w)\<rparr>))"

fun handle_event ::
  "js_runtime \<Rightarrow> jsstring \<Rightarrow> int \<Rightarrow> nat \<Rightarrow> proc_event \<Rightarrow> launch \<times> world \<Rightarrow> launch \<times> world" where
  "handle_event rt agentName att child (StdoutData d) (l, w) = (l\<lparr>stdout := stdout l @ d\<rparr>, w)"
| "handle_event rt agentName att child (StderrData d) (l, w) = (l\<lparr>stderr := stderr l @ d\<rparr>, w)"
| "handle_event rt agentName att child Close (l, w) = on_close rt agentName att child (l, w)"
| "handle_event rt agentName att child (ProcError m) (l, w) = on_error agentName att child m (l, w)"
| "handle_event rt agentName att child TimerFired (l, w) = on_timeout agentName att child (l, w)"
| "handle_event rt agentName att child (External c) (l, w) = (l, ext_step c w)"

text \<open>
  One launch. \<open>child\<close> is the handle \<open>spawn\<close> returns and \<open>events\<close> what arrives while
  the caller waits. The timer is armed for \<open>timeoutMs\<close> and cleared only by the \<open>close\<close>
  and \<open>error\<close> handlers, so when the events end with no outcome it fires. The trace
  gets \<open>Settle child\<close> when the promise is resolved, and nothing when an uncaught error
  has left it open.
\<close>

definition callAgentOnce ::
  "js_runtime \<Rightarrow> jsstring \<Rightarrow> jsstring \<Rightarrow> int \<Rightarrow> int \<Rightarrow> nat \<Rightarrow> proc_event list \<Rightarrow> world \<Rightarrow>
   (failure + agent_result) \<times> world" where
  "callAgentOnce rt agentName prmpt timeoutMs att child events w =
     (let w1 = w\<lparr>activeProcesses := set_add child (activeProcesses w),
                 effects := effects w @ [Spawn child att prmpt]\<rparr>;
          l0 = \<lparr>stdout = [], stderr = [], outcome = None\<rparr>;
          (l, w2) = on_timeout agentName att child
                      (fold (handle_event rt agentName att child) events (l0, w1));
          w3 = w2\<lparr>effects := effects w2 @ [Settle child]\<rparr>
      in (case outcome l of
            Some (Inl f) \<Rightarrow> (Inl f, w2)
          | Some (Inr r) \<Rightarrow> (Inr r, w3)
          | None \<Rightarrow> (Inr (timeout_result agentName att), w3)))"


section \<open>The retry controller: \<open>callAgent\<close>\<close>

text \<open>
  What the surroundings contribute to attempt \<open>k\<close> of one call: the calls from outside
  that arrive during the backoff sleep, the handle and the events of the launch, the
  clock difference \<open>Date.now() - startTime\<close> read after it, and the calls from outside
  that arrive while the error hook is awaited.
\<close>

record attempt_env =
  env_sleep_calls :: "ext_call list"
  env_child :: nat
  env_events :: "proc_event list"
  env_elapsed :: int
  env_hook_calls :: "ext_call list"

record call_options =
  opt_timeout :: "int option"
  opt_retries :: "int option"
  opt_isChair :: "bool option"

definition cancelled_result :: "jsstring \<Rightarrow> int \<Rightarrow> agent_result" where
  "cancelled_result agentName att =
     \<lparr>agent = agentName,
      text = asc ''['' @ [0x41E, 0x442, 0x43C, 0x435, 0x43D, 0x435, 0x43D, 0x43E] @ asc '']'',
      success = False, duration = None, errorCode = Some TIMEOUT, attempt = Some att\<rparr>"

definition exhausted_result :: "jsstring \<Rightarrow> agent_result" where
  "exhausted_result agentName =
     \<lparr>agent = agentName,
      text = asc ''['' @ [0x412, 0x441, 0x435] @ asc '' '' @
             [0x43F, 0x43E, 0x43F, 0x44B, 0x442, 0x43A, 0x438] @ asc '' '' @
             [0x438, 0x441, 0x447, 0x435, 0x440, 0x43F, 0x430, 0x43D, 0x44B] @ asc '']'',
      success = False, duration = None, errorCode = Some TIMEOUT, attempt = None\<rparr>"

definition error_hook :: "consilium_config \<Rightarrow> bool \<Rightarrow> agent_result hook option" where
  "error_hook config isChair =
     (case hooks config of
        None \<Rightarrow> None
      | Some h \<Rightarrow> if isChair then onChairError h else onExpertError h)"

text \<open>The backoff sleep before attempt \<open>att > 0\<close>.\<close>

definition backoff_sleep :: "consilium_config \<Rightarrow> int \<Rightarrow> ext_call list \<Rightarrow> world \<Rightarrow> world" where
  "backoff_sleep config att calls w =
     (let d = calculateRetryDelay (att - 1) (delay (retry config))
                (exponentialBackoff (retry config))
      in ext_run calls (w\<lparr>effects := effects w @ [Sleep d]\<rparr>))"

text \<open>
  The \<open>for\<close> loop of \<open>callAgent\<close>, from attempt \<open>att\<close> with \<open>lastError\<close> as it stands. An
  error thrown by the hook rejects the call; a launch that is never settled leaves the
  call unsettled.
\<close>

function callAgent_loop ::
  "js_runtime \<Rightarrow> jsstring \<Rightarrow> jsstring \<Rightarrow> consilium_config \<Rightarrow> int \<Rightarrow> int \<Rightarrow> bool \<Rightarrow>
   (int \<Rightarrow> attempt_env) \<Rightarrow> int \<Rightarrow> agent_result option \<Rightarrow> world \<Rightarrow>
   (failure + agent_result) \<times> world" where
  "callAgent_loop rt agentName prmpt config tmo maxAttempts isChair env att lastError w =
     (if att < maxAttempts then
        if cancelled w then (Inr (cancelled_result agentName att), w)
        else
          (let w1 = (if att > 0 then backoff_sleep config att (env_sleep_calls (env att)) w
                     else w)
           in case callAgentOnce rt agentName prmpt tmo att (env_child (env att))
                     (env_events (env att)) w1 of
                (Inl e, w2) \<Rightarrow> (Inl e, w2)
              | (Inr result, w2) \<Rightarrow>
                  if success result
                  then (Inr (result\<lparr>duration := Some (env_elapsed (env att))\<rparr>), w2)
                  else
                    (case error_hook config isChair of
                       None \<Rightarrow>
                         callAgent_loop rt agentName prmpt config tmo maxAttempts isChair env
                           (att + 1) (Some result) w2
                     | Some h \<Rightarrow>
                         (case h result of
                            Some e \<Rightarrow> (Inl (Rejected e), ext_run (env_hook_calls (env att)) w2)
                          | None \<Rightarrow>
                              callAgent_loop rt agentName prmpt config tmo maxAttempts isChair env
                                (att + 1) (Some result)
                                (ext_run (env_hook_calls (env att)) w2))))
      else (Inr (case lastError of Some r \<Rightarrow> r | None \<Rightarrow> exhausted_result agentName), w))"
  by pat_completeness auto
termination
  by (relation "measure (\<lambda>(rt, agentName, prmpt, config, tmo, maxAttempts, isChair, env, att,
        lastError, w). nat (maxAttempts - att))") auto

declare callAgent_loop.simps [simp del]

definition callAgent ::
  "js_runtime \<Rightarrow> jsstring \<Rightarrow> jsstring \<Rightarrow> consilium_config \<Rightarrow> call_options \<Rightarrow>
   (int \<Rightarrow> attempt_env) \<Rightarrow> world \<Rightarrow> (failure + agent_result) \<times> world" where
  "callAgent rt agentName prmpt config options env w =
     (let tmo = (case opt_timeout options of
                   None \<Rightarrow> timeouts_expert (timeouts config) | Some t \<Rightarrow> t);
          rs = (case opt_retries options of
                  None \<Rightarrow> expertRetries (retry config) | Some r \<Rightarrow> r);
          isChair = (case opt_isChair options of None \<Rightarrow> False | Some b \<Rightarrow> b);
          maxAttempts = rs + 1
      in callAgent_loop rt agentName prmpt config tmo maxAttempts isChair env 0 None w)"


section \<open>Prompts\<close>

text \<open>
  The replacement text of \<open>String.prototype.replace\<close>: \<open>$$\<close>, \<open>$&\<close>, the backquote and
  the quote patterns are expanded; the pattern of \<open>buildPrompt\<close> has no capture
  group, so every other \<open>$\<close> stands for itself.
\<close>

fun expand_replacement :: "jsstring \<Rightarrow> jsstring \<Rightarrow> jsstring \<Rightarrow> jsstring \<Rightarrow> jsstring" where
  "expand_replacement pre matched post [] = []"
| "expand_replacement pre matched post (c # cs) =
     (if c = 0x24 then
        (case cs of
           [] \<Rightarrow> [0x24]
         | d # ds \<Rightarrow>
             if d = 0x24 then 0x24 # expand_replacement pre matched post ds
             else if d = 0x26 then matched @ expand_replacement pre matched post ds
             else if d = 0x60 then pre @ expand_replacement pre matched post ds
             else if d = 0x27 then post @ expand_replacement pre matched post ds
             else 0x24 # expand_replacement pre matched post cs)
      else c # expand_replacement pre matched post cs)"

text \<open>\<open>s.replace(/\$\{task\}/g, task)\<close>; \<open>seen\<close> is the part of \<open>s\<close> already scanned.\<close>

function replace_task :: "jsstring \<Rightarrow> jsstring \<Rightarrow> jsstring \<Rightarrow> jsstring" where
  "replace_task seen rest task =
     (if take 7 rest = asc ''${task}'' then
        expand_replacement seen (asc ''${task}'') (drop 7 rest) task @
        replace_task (seen @ asc ''${task}'') (drop 7 rest) task
      else (case rest of
              [] \<Rightarrow> []
            | c # cs \<Rightarrow> c # replace_task (seen @ [c]) cs task))"
  by pat_completeness auto
termination
proof (relation "measure (\<lambda>(seen, rest, task). length rest)", goal_cases)
  case 1
  show ?case by simp
next
  case (2 seen rest task)
  then have "rest \<noteq> []" by (auto simp: asc_def)
  then show ?case by simp
next
  case (3 seen rest task c cs)
  then show ?case by simp
qed

declare replace_task.simps [simp del]

text \<open>
  The table \<open>DEFAULT_EXPERT_PROMPTS\<close>, applied to the task: the entry of the key
  \<open>name\<close>, or the entry \<open>default\<close> when the table has no such key. The keys are
  \<open>arch\<close>, \<open>ux\<close>, \<open>ba\<close>, \<open>sec\<close> and \<open>default\<close>, each a function.
\<close>

definition DEFAULT_EXPERT_PROMPTS :: "jsstring \<Rightarrow> jsstring \<Rightarrow> jsstring" where
  "DEFAULT_EXPERT_PROMPTS nm task =
     (if nm = asc ''arch'' then
        [0x41A, 0x430, 0x43A] @ asc '' '' @ [0x430, 0x440, 0x445, 0x438, 0x442, 0x435, 0x43A, 0x442, 0x43E, 0x440] @
        asc '', '' @ [0x43E, 0x446, 0x435, 0x43D, 0x438] @ asc '' '' @ [0x437, 0x430, 0x434, 0x430, 0x447, 0x443] @
        asc '' '' @ [0x43A, 0x440, 0x430, 0x442, 0x43A, 0x43E] @ asc '' (3-5 '' @
        [0x43F, 0x440, 0x435, 0x434, 0x43B, 0x43E, 0x436, 0x435, 0x43D, 0x438, 0x439] @ asc ''): '' @ task
      else if nm = asc ''ux'' then
        [0x41A, 0x430, 0x43A] @ asc '' UX-'' @ [0x441, 0x43F, 0x435, 0x446, 0x438, 0x430, 0x43B, 0x438, 0x441, 0x442] @
        asc '', '' @ [0x43E, 0x446, 0x435, 0x43D, 0x438] @ asc '' '' @ [0x437, 0x430, 0x434, 0x430, 0x447, 0x443] @
        asc '' '' @ [0x43A, 0x440, 0x430, 0x442, 0x43A, 0x43E] @ asc '' (3-5 '' @
        [0x43F, 0x440, 0x435, 0x434, 0x43B, 0x43E, 0x436, 0x435, 0x43D, 0x438, 0x439] @ asc ''): '' @ task
      else if nm = asc ''ba'' then
        [0x41A, 0x430, 0x43A] @ asc '' '' @ [0x431, 0x438, 0x437, 0x43D, 0x435, 0x441] @ asc ''-'' @
        [0x430, 0x43D, 0x430, 0x43B, 0x438, 0x442, 0x438, 0x43A] @
        asc '', '' @ [0x43E, 0x446, 0x435, 0x43D, 0x438] @ asc '' '' @ [0x437, 0x430, 0x434, 0x430, 0x447, 0x443] @
        asc '' '' @ [0x43A, 0x440, 0x430, 0x442, 0x43A, 0x43E] @ asc '' (3-5 '' @
        [0x43F, 0x440, 0x435, 0x434, 0x43B, 0x43E, 0x436, 0x435, 0x43D, 0x438, 0x439] @ asc ''): '' @ task
      else if nm = asc ''sec'' then
        [0x41A, 0x430, 0x43A] @ asc '' '' @ [0x44D, 0x43A, 0x441, 0x43F, 0x435, 0x440, 0x442] @ asc '' '' @
        [0x43F, 0x43E] @ asc '' '' @
        [0x431, 0x435, 0x437, 0x43E, 0x43F, 0x430, 0x441, 0x43D, 0x43E, 0x441, 0x442, 0x438] @
        asc '', '' @ [0x43E, 0x446, 0x435, 0x43D, 0x438] @ asc '' '' @ [0x437, 0x430, 0x434, 0x430, 0x447, 0x443] @
        asc '' '' @ [0x43A, 0x440, 0x430, 0x442, 0x43A, 0x43E] @ asc '' (3-5 '' @
        [0x43F, 0x440, 0x435, 0x434, 0x43B, 0x43E, 0x436, 0x435, 0x43D, 0x438, 0x439] @ asc ''): '' @ task
      else
        [0x41F, 0x440, 0x43E, 0x430, 0x43D, 0x430, 0x43B, 0x438, 0x437, 0x438, 0x440, 0x443, 0x439] @ asc '' '' @
        [0x437, 0x430, 0x434, 0x430, 0x447, 0x443] @ asc '' '' @ [0x43A, 0x430, 0x43A] @ asc '' '' @
        [0x44D, 0x43A, 0x441, 0x43F, 0x435, 0x440, 0x442] @ asc '' ('' @
        [0x43A, 0x440, 0x430, 0x442, 0x43A, 0x43E] @ asc '', 3-5 '' @
        [0x43F, 0x440, 0x435, 0x434, 0x43B, 0x43E, 0x436, 0x435, 0x43D, 0x438, 0x439] @ asc ''): '' @ task)"

text \<open>
  The lookup \<open>DEFAULT_EXPERT_PROMPTS[name]\<close> also finds what the table inherits from
  \<open>Object.prototype\<close>: the accessor \<open>__proto__\<close>, whose value is an object, so that the
  prompt is the task itself; and the function members, which are then called on the
  task.
\<close>

definition object_prototype_functions :: "jsstring list" where
  "object_prototype_functions =
     [asc ''constructor'', asc ''__defineGetter__'', asc ''__defineSetter__'',
      asc ''hasOwnProperty'', asc ''__lookupGetter__'', asc ''__lookupSetter__'',
      asc ''isPrototypeOf'', asc ''propertyIsEnumerable'', asc ''toString'', asc ''valueOf'',
      asc ''toLocaleString'']"

definition default_prompt :: "js_runtime \<Rightarrow> jsstring \<Rightarrow> jsstring \<Rightarrow> js_error + jsstring" where
  "default_prompt rt nm task =
     (if nm = asc ''__proto__'' then Inr task
      else if nm \<in> set object_prototype_functions then inherited_call rt nm task
      else Inr (DEFAULT_EXPERT_PROMPTS nm task))"

text \<open>
  \<open>buildPrompt\<close>. \<open>Inl\<close> is an error thrown by the call of an inherited member; what
  such a call returns is taken as the string that reaches the launch.
\<close>

definition buildPrompt :: "js_runtime \<Rightarrow> expert_config \<Rightarrow> jsstring \<Rightarrow> js_error + jsstring" where
  "buildPrompt rt expert task =
     (case prompt expert of
        Some (PromptFunction f) \<Rightarrow> Inr (f task)
      | Some (PromptString s) \<Rightarrow>
          if s \<noteq> [] then Inr (replace_task [] s task) else default_prompt rt (name expert) task
      | None \<Rightarrow> default_prompt rt (name expert) task)"

text \<open>One section of the chair prompt: the body of the \<open>for\<close> loop of the template.\<close>

definition expert_section :: "js_runtime \<Rightarrow> agent_result \<Rightarrow> jsstring" where
  "expert_section rt r =
     (let cleanText = substring0 (text r) 3000
      in asc ''### '' @ string_toUpperCase rt (agent r) @ [0x0A] @ cleanText @ [0x0A, 0x0A])"

definition DEFAULT_CHAIR_PROMPT_TEMPLATE ::
  "js_runtime \<Rightarrow> jsstring \<Rightarrow> agent_result list \<Rightarrow> jsstring" where
  "DEFAULT_CHAIR_PROMPT_TEMPLATE rt task exps =
     [0x421, 0x438, 0x43D, 0x442, 0x435, 0x437, 0x438, 0x440, 0x443, 0x439] @ asc '' '' @
     [0x43C, 0x43D, 0x435, 0x43D, 0x438, 0x44F] @ asc '' '' @
     [0x44D, 0x43A, 0x441, 0x43F, 0x435, 0x440, 0x442, 0x43E, 0x432] @ asc '' '' @ [0x438] @ asc '' '' @
     [0x441, 0x43E, 0x441, 0x442, 0x430, 0x432, 0x44C] @ asc '' '' @
     [0x438, 0x442, 0x43E, 0x433, 0x43E, 0x432, 0x44B, 0x439] @ asc '' '' @
     [0x43F, 0x43B, 0x430, 0x43D] @ asc ''.'' @ [0x0A, 0x0A] @
     asc ''## '' @ [0x417, 0x430, 0x434, 0x430, 0x447, 0x430, 0x0A] @ task @ [0x0A, 0x0A] @
     asc ''## '' @ [0x41C, 0x43D, 0x435, 0x43D, 0x438, 0x44F] @ asc '' '' @
     [0x44D, 0x43A, 0x441, 0x43F, 0x435, 0x440, 0x442, 0x43E, 0x432, 0x0A] @
     concat (map (expert_section rt) exps) @
     asc ''## '' @ [0x422, 0x440, 0x435, 0x431, 0x43E, 0x432, 0x430, 0x43D, 0x438, 0x44F] @ asc '' '' @
     [0x43A] @ asc '' '' @ [0x43E, 0x442, 0x432, 0x435, 0x442, 0x443, 0x0A] @
     asc ''1. **'' @ [0x420, 0x435, 0x437, 0x44E, 0x43C, 0x435] @ asc ''** (1-2 '' @
     [0x43F, 0x440, 0x435, 0x434, 0x43B, 0x43E, 0x436, 0x435, 0x43D, 0x438, 0x44F] @ asc '')'' @ [0x0A] @
     asc ''2. **'' @ [0x422, 0x43E, 0x43F] @ asc ''-3 '' @
     [0x43F, 0x440, 0x438, 0x43E, 0x440, 0x438, 0x442, 0x435, 0x442, 0x43D, 0x44B, 0x445] @ asc '' '' @
     [0x434, 0x435, 0x439, 0x441, 0x442, 0x432, 0x438, 0x44F] @ asc ''** '' @ [0x441] @ asc '' '' @
     [0x43E, 0x431, 0x43E, 0x441, 0x43D, 0x43E, 0x432, 0x430, 0x43D, 0x438, 0x435, 0x43C, 0x0A] @
     asc ''3. **'' @ [0x413, 0x43B, 0x430, 0x432, 0x43D, 0x44B, 0x439] @ asc '' '' @
     [0x440, 0x438, 0x441, 0x43A] @ asc ''** '' @ [0x438] @ asc '' '' @
     [0x43C, 0x438, 0x442, 0x438, 0x433, 0x430, 0x446, 0x438, 0x44F, 0x0A] @
     asc ''4. **'' @ [0x41E, 0x446, 0x435, 0x43D, 0x43A, 0x430] @ asc '' '' @
     [0x442, 0x440, 0x443, 0x434, 0x43E, 0x437, 0x430, 0x442, 0x440, 0x430, 0x442] @ asc ''** ('' @
     [0x435, 0x441, 0x43B, 0x438] @ asc '' '' @
     [0x43F, 0x440, 0x438, 0x43C, 0x435, 0x43D, 0x438, 0x43C, 0x43E] @ asc '')''"

text \<open>
  The prompt \<open>callChair\<close> sends: the template of the configuration, or the default. A
  template is a function of the language, so it is run on the runtime as well.
\<close>

definition chair_prompt ::
  "js_runtime \<Rightarrow> consilium_config \<Rightarrow> jsstring \<Rightarrow> agent_result list \<Rightarrow> jsstring" where
  "chair_prompt rt cfg task expertResults =
     (case promptTemplate (chair cfg) of
        Some f \<Rightarrow> f rt task expertResults
      | None \<Rightarrow> DEFAULT_CHAIR_PROMPT_TEMPLATE rt task expertResults)"

section \<open>The defaults\<close>

definition DEFAULT_EXPERTS :: "expert_config list" where
  "DEFAULT_EXPERTS =
     [\<lparr>name = asc ''arch'', prompt = None, timeout = None, retries = None, enabled = Some True\<rparr>,
      \<lparr>name = asc ''ux'', prompt = None, timeout = None, retries = None, enabled = Some True\<rparr>,
      \<lparr>name = asc ''ba'', prompt = None, timeout = None, retries = None, enabled = Some True\<rparr>,
      \<lparr>name = asc ''sec'', prompt = None, timeout = None, retries = None, enabled = Some True\<rparr>]"

definition DEFAULT_CHAIR :: chair_config where
  "DEFAULT_CHAIR =
     \<lparr>chair_agent = asc ''consilium'', chair_timeout = None,
      promptTemplate = Some DEFAULT_CHAIR_PROMPT_TEMPLATE, maxExpertTextLength = Some 3000\<rparr>"

definition DEFAULT_CONFIG :: consilium_config where
  "DEFAULT_CONFIG =
     \<lparr>experts = DEFAULT_EXPERTS,
      chair = DEFAULT_CHAIR,
      timeouts = \<lparr>timeouts_expert = 300000, timeouts_chair = 600000, timeouts_shutdown = 5000\<rparr>,
      retry = \<lparr>expertRetries = 1, chairRetries = 1, delay = 1000, exponentialBackoff = True\<rparr>,
      output_file = Some (asc ''consilium_result.txt''),
      hooks = None\<rparr>"

section \<open>The fan-out coordinator: \<open>callExpertsParallel\<close>\<close>

text \<open>
  \<open>Promise.all\<close> over \<open>n\<close> promises. \<open>settles\<close> lists the promises in the order in
  which they settle, each with its index and what it settled with. A resolved value is
  stored at the index of its promise and a counter of the open ones goes down; when it
  reaches zero the array is the result. The first failure (\<open>Inl\<close>) decides the whole.
  \<open>None\<close> means still pending.
\<close>

fun promise_all_run ::
  "'a option list \<Rightarrow> nat \<Rightarrow> (nat \<times> ('e + 'a)) list \<Rightarrow> ('e + 'a list) option" where
  "promise_all_run vals remaining [] = None"
| "promise_all_run vals remaining ((i, Inl e) # rest) = Some (Inl e)"
| "promise_all_run vals remaining ((i, Inr v) # rest) =
     (let vals' = vals[i := Some v]
      in if remaining - 1 = 0 then map_option Inr (those vals')
         else promise_all_run vals' (remaining - 1) rest)"

definition Promise_all ::
  "nat \<Rightarrow> (nat \<times> ('e + 'a)) list \<Rightarrow> ('e + 'a list) option" where
  "Promise_all n settles =
     (if n = 0 then Some (Inr []) else promise_all_run (replicate n None) n settles)"

text \<open>
  What the surroundings contribute to one branch: the calls from outside while its
  hooks are awaited, the attempts of its \<open>callAgent\<close>, and the moment at which the
  branch settles.
\<close>

record task_env =
  env_start_calls :: "ext_call list"
  env_attempts :: "int \<Rightarrow> attempt_env"
  env_end_calls :: "ext_call list"
  env_finish :: nat

text \<open>\<open>x || d\<close> on an optional number: \<open>undefined\<close> and \<open>0\<close> give \<open>d\<close>.\<close>

definition or_default :: "int option \<Rightarrow> int \<Rightarrow> int" where
  "or_default x d = (case x of None \<Rightarrow> d | Some v \<Rightarrow> if v = 0 then d else v)"

text \<open>\<open>x ?? d\<close>: only \<open>undefined\<close> gives \<open>d\<close>.\<close>

definition nullish_default :: "int option \<Rightarrow> int \<Rightarrow> int" where
  "nullish_default x d = (case x of None \<Rightarrow> d | Some v \<Rightarrow> v)"

text \<open>An awaited hook: absent, it is skipped; present, it returns or throws.\<close>

definition await_hook :: "'a hook option \<Rightarrow> 'a \<Rightarrow> ext_call list \<Rightarrow> world \<Rightarrow> js_error option \<times> world" where
  "await_hook h x calls w =
     (case h of
        None \<Rightarrow> (None, w)
      | Some f \<Rightarrow> (f x, ext_run calls w))"

definition hook_of :: "consilium_config \<Rightarrow> (consilium_hooks \<Rightarrow> 'a hook option) \<Rightarrow> 'a hook option" where
  "hook_of cfg sel = (case hooks cfg of None \<Rightarrow> None | Some h \<Rightarrow> sel h)"

text \<open>The body of the \<open>map\<close> callback: one branch of the fan-out.\<close>

definition expert_branch ::
  "js_runtime \<Rightarrow> expert_config \<Rightarrow> jsstring \<Rightarrow> consilium_config \<Rightarrow> task_env \<Rightarrow> world \<Rightarrow>
   (failure + agent_result) \<times> world" where
  "expert_branch rt expert task cfg tenv w =
     (case buildPrompt rt expert task of
        Inl e \<Rightarrow> (Inl (Rejected e), w)
      | Inr prmpt \<Rightarrow>
      case await_hook (hook_of cfg onExpertStart) (name expert, task) (env_start_calls tenv) w of
        (Some e, w1) \<Rightarrow> (Inl (Rejected e), w1)
      | (None, w1) \<Rightarrow>
          (case callAgent rt (name expert) prmpt cfg
                  \<lparr>opt_timeout = Some (or_default (timeout expert) (timeouts_expert (timeouts cfg))),
                   opt_retries = Some (nullish_default (retries expert) (expertRetries (retry cfg))),
                   opt_isChair = Some False\<rparr>
                  (env_attempts tenv) w1 of
             (Inl e, w2) \<Rightarrow> (Inl e, w2)
           | (Inr result, w2) \<Rightarrow>
               (case await_hook (hook_of cfg onExpertEnd) result (env_end_calls tenv) w2 of
                  (Some e, w3) \<Rightarrow> (Inl (Rejected e), w3)
                | (None, w3) \<Rightarrow> (Inr result, w3))))"

text \<open>
  The branches run interleaved on one thread. A branch reads the flag \<open>cancelled\<close> only
  at the top of its own loop, and everything that writes the flag before such a read
  happens while this very branch is suspended; so each branch is run against the world
  as that branch sees it, from the world \<open>w\<close> of the call. The completion order is the
  order of the moments \<open>env_finish\<close>. The world after the call is the world of the
  branch that decided \<open>Promise.all\<close>: the first one to fail, or the last one to
  finish; its trace lists the traces of the branches in completion order. The first
  failure is a rejection, which rejects the whole, or an uncaught error, which ends the
  process with the call still open.
\<close>

definition enabled_experts :: "expert_config list \<Rightarrow> expert_config list" where
  "enabled_experts exps = filter (\<lambda>e. enabled e \<noteq> Some False) exps"

definition completion_order :: "(nat \<Rightarrow> task_env) \<Rightarrow> nat \<Rightarrow> nat list" where
  "completion_order tenvs n = sort_key (\<lambda>i. env_finish (tenvs i)) [0..<n]"

definition deciding_branch :: "('e + 'a) list \<Rightarrow> nat list \<Rightarrow> nat option" where
  "deciding_branch outs order =
     (case filter (\<lambda>i. isl (outs ! i)) order of
        i # _ \<Rightarrow> Some i
      | [] \<Rightarrow> (if order = [] then None else Some (last order)))"

definition callExpertsParallel ::
  "js_runtime \<Rightarrow> expert_config list \<Rightarrow> jsstring \<Rightarrow> consilium_config \<Rightarrow> (nat \<Rightarrow> task_env) \<Rightarrow>
   world \<Rightarrow> (failure + agent_result list) option \<times> world" where
  "callExpertsParallel rt exps task cfg tenvs w =
     (let enabledExperts = enabled_experts exps;
          n = length enabledExperts;
          branches = map (\<lambda>i. expert_branch rt (enabledExperts ! i) task cfg (tenvs i) w) [0..<n];
          order = completion_order tenvs n;
          settles = map (\<lambda>i. (i, fst (branches ! i))) order;
          trace = concat (map (\<lambda>i. effects_since w (snd (branches ! i))) order);
          w' = (case deciding_branch (map fst branches) order of
                  None \<Rightarrow> w
                | Some i \<Rightarrow> (snd (branches ! i))\<lparr>effects := effects w @ trace\<rparr>)
      in (Promise_all n settles, w'))"

section \<open>The fan-in synthesizer: \<open>callChair\<close>\<close>

definition callChair ::
  "js_runtime \<Rightarrow> agent_result list \<Rightarrow> jsstring \<Rightarrow> consilium_config \<Rightarrow> task_env \<Rightarrow> world \<Rightarrow>
   (failure + agent_result) \<times> world" where
  "callChair rt expertResults task cfg tenv w =
     (let prmpt = chair_prompt rt cfg task expertResults in
      case await_hook (hook_of cfg onChairStart) (task, expertResults) (env_start_calls tenv) w of
        (Some e, w1) \<Rightarrow> (Inl (Rejected e), w1)
      | (None, w1) \<Rightarrow>
          (case callAgent rt (chair_agent (chair cfg)) prmpt cfg
                  \<lparr>opt_timeout = Some (or_default (chair_timeout (chair cfg)) (timeouts_chair (timeouts cfg))),
                   opt_retries = Some (chairRetries (retry cfg)),
                   opt_isChair = Some True\<rparr>
                  (env_attempts tenv) w1 of
             (Inl e, w2) \<Rightarrow> (Inl e, w2)
           | (Inr result, w2) \<Rightarrow>
               (case await_hook (hook_of cfg onChairEnd) result (env_end_calls tenv) w2 of
                  (Some e, w3) \<Rightarrow> (Inl (Rejected e), w3)
                | (None, w3) \<Rightarrow> (Inr result, w3))))"

section \<open>The round: \<open>Consilium.run\<close>\<close>

datatype consilium_status =
  Idle | Running_experts | Running_chair | Completed | Failed | Cancelled

text \<open>The fields of an instance that \<open>run\<close> reads and writes.\<close>

record consilium =
  config :: consilium_config
  status :: consilium_status
  startTime :: int

record run_options =
  ro_experts :: "jsstring list option"
  ro_chair :: "jsstring option"
  ro_outputFile :: "jsstring option"
  ro_hooks :: "consilium_hooks option"
  ro_metadata :: "(jsstring \<times> json) list option"

text \<open>
  What the surroundings contribute to a round: the clock, the answer of
  \<open>checkOpenCodeAvailable\<close>, the branches of the experts and the call of the chair,
  whether writing the result file throws, and the calls from outside during each wait.
\<close>

record run_env =
  env_now_start :: int
  env_available :: bool
  env_available_calls :: "ext_call list"
  env_onStart_calls :: "ext_call list"
  env_experts :: "nat \<Rightarrow> task_env"
  env_chair :: task_env
  env_now_end :: int
  env_save :: "js_error option"
  env_save_calls :: "ext_call list"
  env_onEnd_calls :: "ext_call list"
  env_onError_calls :: "ext_call list"

text \<open>
  How \<open>run\<close> ends for its caller: its promise never settles (also when an uncaught
  error has ended the process), it throws, or it returns.
\<close>

datatype 'a completion = Pending | Threw js_error | Returned 'a

definition status_name :: "consilium_status \<Rightarrow> jsstring" where
  "status_name st =
     (case st of
        Idle \<Rightarrow> asc ''idle''
      | Running_experts \<Rightarrow> asc ''running_experts''
      | Running_chair \<Rightarrow> asc ''running_chair''
      | Completed \<Rightarrow> asc ''completed''
      | Failed \<Rightarrow> asc ''failed''
      | Cancelled \<Rightarrow> asc ''cancelled'')"

text \<open>\<open>{...this.config.hooks, ...extraHooks}\<close>: a hook of the options replaces the one of the configuration.\<close>

definition over :: "'a option \<Rightarrow> 'a option \<Rightarrow> 'a option" where
  "over extra base = (case extra of Some x \<Rightarrow> Some x | None \<Rightarrow> base)"

definition no_hooks :: consilium_hooks where
  "no_hooks =
     \<lparr>onStart = None, onExpertStart = None, onExpertEnd = None, onExpertError = None,
      onChairStart = None, onChairEnd = None, onChairError = None, onEnd = None, onError = None\<rparr>"

definition mergeHooks :: "consilium_hooks option \<Rightarrow> consilium_hooks option \<Rightarrow> consilium_hooks" where
  "mergeHooks base extra =
     (let b = (case base of None \<Rightarrow> no_hooks | Some h \<Rightarrow> h);
          x = (case extra of None \<Rightarrow> no_hooks | Some h \<Rightarrow> h)
      in \<lparr>onStart = over (onStart x) (onStart b),
          onExpertStart = over (onExpertStart x) (onExpertStart b),
          onExpertEnd = over (onExpertEnd x) (onExpertEnd b),
          onExpertError = over (onExpertError x) (onExpertError b),
          onChairStart = over (onChairStart x) (onChairStart b),
          onChairEnd = over (onChairEnd x) (onChairEnd b),
          onChairError = over (onChairError x) (onChairError b),
          onEnd = over (onEnd x) (onEnd b),
          onError = over (onError x) (onError b)\<rparr>)"

definition createCancelledResult ::
  "consilium \<Rightarrow> int \<Rightarrow> agent_result list \<Rightarrow> agent_result option \<Rightarrow> consilium_result" where
  "createCancelledResult inst now exps chairResult =
     \<lparr>result_text = asc ''['' @ [0x41A, 0x43E, 0x43D, 0x441, 0x438, 0x43B, 0x438, 0x443, 0x43C] @ asc '' '' @
                    [0x43E, 0x442, 0x43C, 0x435, 0x43D, 0x451, 0x43D] @ asc '']'',
      result_experts = exps,
      result_chair =
        (case chairResult of
           Some c \<Rightarrow> c
         | None \<Rightarrow>
             \<lparr>agent = chair_agent (chair (config inst)),
              text = asc ''['' @ [0x41E, 0x442, 0x43C, 0x435, 0x43D, 0x435, 0x43D, 0x43E] @ asc '']'',
              success = False, duration = None, errorCode = None, attempt = None\<rparr>),
      totalTime = now - startTime inst,
      parallelTime = 0,
      result_success = False,
      metadata = Some [(asc ''cancelled'', JBool True)]\<rparr>"

text \<open>The experts of the round: those named in the options, or those not disabled.\<close>

definition select_experts :: "consilium_config \<Rightarrow> run_options \<Rightarrow> expert_config list" where
  "select_experts cfg opts =
     (case ro_experts opts of
        Some names \<Rightarrow> filter (\<lambda>e. name e \<in> set names) (experts cfg)
      | None \<Rightarrow> filter (\<lambda>e. enabled e \<noteq> Some False) (experts cfg))"

text \<open>\<open>expertResults.reduce((max, r) => Math.max(max, r.duration || 0), 0)\<close>.\<close>

definition longest_duration :: "agent_result list \<Rightarrow> int" where
  "longest_duration rs = fold (\<lambda>r m. max m (or_default (duration r) 0)) rs 0"

text \<open>
  The part of the \<open>try\<close> block after the chair has answered and no cancellation was
  seen: the result is built, written, and reported.
\<close>

definition run_complete ::
  "run_options \<Rightarrow> consilium_hooks \<Rightarrow> run_env \<Rightarrow> agent_result list \<Rightarrow> agent_result \<Rightarrow>
   consilium \<times> world \<Rightarrow> consilium_result completion \<times> consilium \<times> world" where
  "run_complete opts hks renv expertResults chairResult iw =
     (case iw of (inst, w) \<Rightarrow>
        (let inst1 = inst\<lparr>status := Completed\<rparr>;
             result = \<lparr>result_text = text chairResult,
                       result_experts = expertResults,
                       result_chair = chairResult,
                       totalTime = env_now_end renv - startTime inst1,
                       parallelTime = longest_duration expertResults,
                       result_success = success chairResult,
                       metadata = ro_metadata opts\<rparr>;
             saving = (ro_outputFile opts \<noteq> None \<and>
                       (case output_file (config inst1) of None \<Rightarrow> False | Some f \<Rightarrow> f \<noteq> []));
             w1 = (if saving then ext_run (env_save_calls renv) w else w)
         in case (if saving then env_save renv else None) of
              Some e \<Rightarrow> (Threw e, inst1, w1)
            | None \<Rightarrow>
                (case await_hook (onEnd hks) result (env_onEnd_calls renv) w1 of
                   (Some e, w2) \<Rightarrow> (Threw e, inst1, w2)
                 | (None, w2) \<Rightarrow> (Returned result, inst1, w2))))"

text \<open>The part of the \<open>try\<close> block from the call of the chair on.\<close>

definition run_chair ::
  "js_runtime \<Rightarrow> jsstring \<Rightarrow> run_options \<Rightarrow> consilium_hooks \<Rightarrow> run_env \<Rightarrow> agent_result list \<Rightarrow>
   consilium \<times> world \<Rightarrow> consilium_result completion \<times> consilium \<times> world" where
  "run_chair rt task opts hks renv expertResults iw =
     (case iw of (inst, w) \<Rightarrow>
        (let inst1 = inst\<lparr>status := Running_chair\<rparr>;
             chairAgent = (case ro_chair opts of
                             Some c \<Rightarrow> if c \<noteq> [] then c else chair_agent (chair (config inst1))
                           | None \<Rightarrow> chair_agent (chair (config inst1)));
             originalChairAgent = chair_agent (chair (config inst1));
             inst2 = inst1\<lparr>config := (config inst1)\<lparr>chair := (chair (config inst1))\<lparr>chair_agent := chairAgent\<rparr>\<rparr>\<rparr>
         in case callChair rt expertResults task (config inst2) (env_chair renv) w of
              (Inl (Rejected e), w1) \<Rightarrow> (Threw e, inst2, w1)
            | (Inl (Uncaught e), w1) \<Rightarrow> (Pending, inst2, w1)
            | (Inr chairResult, w1) \<Rightarrow>
                (let inst3 = inst2\<lparr>config := (config inst2)\<lparr>chair := (chair (config inst2))\<lparr>chair_agent := originalChairAgent\<rparr>\<rparr>\<rparr>
                 in if isCancelled w1
                    then (Returned (createCancelledResult inst3 (env_now_end renv) expertResults (Some chairResult)),
                          inst3\<lparr>status := Cancelled\<rparr>, w1)
                    else run_complete opts hks renv expertResults chairResult (inst3, w1))))"

text \<open>
  The \<open>try\<close> block up to the end of the expert phase: \<open>onStart\<close>, the choice of the
  experts, and the fan-out.
\<close>

definition run_experts ::
  "js_runtime \<Rightarrow> jsstring \<Rightarrow> run_options \<Rightarrow> consilium_hooks \<Rightarrow> run_env \<Rightarrow>
   consilium \<times> world \<Rightarrow> agent_result list completion \<times> world" where
  "run_experts rt task opts hks renv iw =
     (case iw of (inst, w) \<Rightarrow>
        (case await_hook (onStart hks) task (env_onStart_calls renv) w of
           (Some e, w1) \<Rightarrow> (Threw e, w1)
         | (None, w1) \<Rightarrow>
             (let exps = select_experts (config inst) opts in
              if length exps = 0 then
                (Threw (Error ([0x41D, 0x435, 0x442] @ asc '' '' @
                   [0x430, 0x43A, 0x442, 0x438, 0x432, 0x43D, 0x44B, 0x445] @ asc '' '' @
                   [0x44D, 0x43A, 0x441, 0x43F, 0x435, 0x440, 0x442, 0x43E, 0x432] @ asc '' '' @
                   [0x434, 0x43B, 0x44F] @ asc '' '' @
                   [0x43A, 0x43E, 0x43D, 0x441, 0x438, 0x43B, 0x438, 0x443, 0x43C, 0x430])), w1)
              else
                (case callExpertsParallel rt exps task (config inst) (env_experts renv) w1 of
                   (None, w2) \<Rightarrow> (Pending, w2)
                 | (Some (Inl (Rejected e)), w2) \<Rightarrow> (Threw e, w2)
                 | (Some (Inl (Uncaught e)), w2) \<Rightarrow> (Pending, w2)
                 | (Some (Inr expertResults), w2) \<Rightarrow> (Returned expertResults, w2)))))"

text \<open>The \<open>try\<close> block: after the expert phase the flag is read, then the chair is called.\<close>

definition run_try ::
  "js_runtime \<Rightarrow> jsstring \<Rightarrow> run_options \<Rightarrow> consilium_hooks \<Rightarrow> run_env \<Rightarrow>
   consilium \<times> world \<Rightarrow> consilium_result completion \<times> consilium \<times> world" where
  "run_try rt task opts hks renv iw =
     (case iw of (inst, w) \<Rightarrow>
        (case run_experts rt task opts hks renv (inst, w) of
           (Pending, w2) \<Rightarrow> (Pending, inst, w2)
         | (Threw e, w2) \<Rightarrow> (Threw e, inst, w2)
         | (Returned expertResults, w2) \<Rightarrow>
             if isCancelled w2
             then (Returned (createCancelledResult inst (env_now_end renv) expertResults None),
                   inst\<lparr>status := Cancelled\<rparr>, w2)
             else run_chair rt task opts hks renv expertResults (inst, w2)))"

text \<open>The \<open>catch\<close> block: the status becomes \<open>failed\<close>, \<open>onError\<close> is awaited, the error is thrown again.\<close>

definition run_catch ::
  "consilium_hooks \<Rightarrow> run_env \<Rightarrow> js_error \<Rightarrow> consilium \<times> world \<Rightarrow>
   consilium_result completion \<times> consilium \<times> world" where
  "run_catch hks renv err iw =
     (case iw of (inst, w) \<Rightarrow>
        (let inst1 = inst\<lparr>status := Failed\<rparr> in
         case await_hook (onError hks) err (env_onError_calls renv) w of
           (Some e, w1) \<Rightarrow> (Threw e, inst1, w1)
         | (None, w1) \<Rightarrow> (Threw err, inst1, w1)))"

text \<open>
  The instance and the world when the \<open>try\<close> block is entered: the flag is reset, the
  start time taken, the status \<open>running_experts\<close>, and the check for the command-line
  tool has been awaited.
\<close>

definition round_start :: "run_env \<Rightarrow> consilium \<times> world \<Rightarrow> consilium \<times> world" where
  "round_start renv iw =
     (case iw of (inst, w) \<Rightarrow>
        (inst\<lparr>startTime := env_now_start renv, status := Running_experts\<rparr>,
         ext_run (env_available_calls renv) (resetCancel w)))"

text \<open>
  \<open>run\<close>. The progress callbacks are left out: \<open>emitProgress\<close> catches what they throw
  and changes nothing of the instance.
\<close>

definition run ::
  "js_runtime \<Rightarrow> jsstring \<Rightarrow> run_options \<Rightarrow> run_env \<Rightarrow> consilium \<times> world \<Rightarrow>
   consilium_result completion \<times> consilium \<times> world" where
  "run rt task opts renv iw =
     (case iw of (inst, w) \<Rightarrow>
        if status inst \<noteq> Idle then
          (Threw (Error (asc ''Consilium '' @ [0x443, 0x436, 0x435] @ asc '' '' @
             [0x437, 0x430, 0x43F, 0x443, 0x449, 0x435, 0x43D] @ asc '' ('' @
             [0x441, 0x442, 0x430, 0x442, 0x443, 0x441] @ asc '': '' @ status_name (status inst) @
             asc '')'')), inst, w)
        else
          (case round_start renv (inst, w) of (inst1, w2) \<Rightarrow>
             if \<not> env_available renv then
               (Threw (Error (asc ''OpenCode CLI '' @ [0x43D, 0x435] @ asc '' '' @
                  [0x43D, 0x430, 0x439, 0x434, 0x435, 0x43D] @ asc ''. '' @
                  [0x423, 0x441, 0x442, 0x430, 0x43D, 0x43E, 0x432, 0x438, 0x442, 0x435] @
                  asc '' opencode-cli.'')), inst1, w2)
             else
               (let hks = mergeHooks (hooks (config inst1)) (ro_hooks opts) in
                case run_try rt task opts hks renv (inst1, w2) of
                  (Threw e, iw') \<Rightarrow> run_catch hks renv e iw'
                | other \<Rightarrow> other)))"

text \<open>The other operations of an instance.\<close>

definition getStatus :: "consilium \<Rightarrow> consilium_status" where
  "getStatus inst = status inst"

definition getConfig :: "consilium \<Rightarrow> consilium_config" where
  "getConfig inst = config inst"

definition instance_cancel :: "consilium \<times> world \<Rightarrow> consilium \<times> world" where
  "instance_cancel iw = (case iw of (inst, w) \<Rightarrow> (inst, cancel w))"

text \<open>\<open>use(plugin)\<close>, with the hooks of the plugin: they are merged into the configuration.\<close>

definition use_plugin :: "consilium_hooks option \<Rightarrow> consilium \<Rightarrow> consilium" where
  "use_plugin plugin_hooks inst =
     (case plugin_hooks of
        None \<Rightarrow> inst
      | Some h \<Rightarrow> inst\<lparr>config := (config inst)\<lparr>hooks := Some (mergeHooks (hooks (config inst)) (Some h))\<rparr>\<rparr>)"

section \<open>Notions used in the statements\<close>

text \<open>The invariant of an outcome: a success has no error code and a non-empty text.\<close>

definition outcome_ok :: "agent_result \<Rightarrow> bool" where
  "outcome_ok r \<longleftrightarrow> (success r \<longrightarrow> errorCode r = None \<and> text r \<noteq> [])"

fun is_Spawn :: "effect \<Rightarrow> bool" where
  "is_Spawn (Spawn c k p) = True"
| "is_Spawn e = False"

fun is_Kill :: "effect \<Rightarrow> bool" where
  "is_Kill (Kill c) = True"
| "is_Kill e = False"

fun is_Sleep_or_Spawn :: "effect \<Rightarrow> bool" where
  "is_Sleep_or_Spawn (Spawn c k p) = True"
| "is_Sleep_or_Spawn (Sleep d) = True"
| "is_Sleep_or_Spawn e = False"

text \<open>
  A trace is sequential when no process is started while the launch of another one is
  still open; \<open>pending\<close> is the handle of the open launch.
\<close>

fun sequential :: "nat option \<Rightarrow> effect list \<Rightarrow> bool" where
  "sequential pending [] = True"
| "sequential pending (Spawn c k p # es) = (pending = None \<and> sequential (Some c) es)"
| "sequential pending (Settle c # es) = (pending = Some c \<and> sequential None es)"
| "sequential pending (e # es) = sequential pending es"

text \<open>What attempt \<open>k\<close> adds to the trace, signals apart.\<close>

definition attempt_steps ::
  "consilium_config \<Rightarrow> jsstring \<Rightarrow> (int \<Rightarrow> attempt_env) \<Rightarrow> int \<Rightarrow> effect list" where
  "attempt_steps cfg prmpt env k =
     (if k > 0
      then [Sleep (calculateRetryDelay (k - 1) (delay (retry cfg))
                     (exponentialBackoff (retry cfg)))]
      else []) @
     [Spawn (env_child (env k)) k prmpt, Settle (env_child (env k))]"


text \<open>An open launch keeps the invariant through every handler.\<close>

definition launch_ok :: "jsstring \<Rightarrow> launch \<Rightarrow> bool" where
  "launch_ok a l \<longleftrightarrow> (\<forall>r. outcome l = Some (Inr r) \<longrightarrow> outcome_ok r \<and> agent r = a)"

text \<open>The world in which attempt \<open>att\<close> is launched: after the backoff sleep, if there is one.\<close>

definition before_attempt :: "consilium_config \<Rightarrow> (int \<Rightarrow> attempt_env) \<Rightarrow> int \<Rightarrow> world \<Rightarrow> world" where
  "before_attempt cfg env att w =
     (if att > 0 then backoff_sleep cfg att (env_sleep_calls (env att)) w else w)"

text \<open>A trace without the signals.\<close>

definition steps_only :: "effect list \<Rightarrow> effect list" where
  "steps_only es = filter (\<lambda>e. \<not> is_Kill e) es"

text \<open>
  What the loop of the decoder collects, line by line. A line contributes when it is
  not blank, parses, and is a record tagged \<open>text\<close> whose nested text payload is
  truthy: a payload such as \<open>null\<close>, \<open>false\<close>, \<open>0\<close> or the empty string is dropped.
\<close>

definition line_payload :: "js_runtime \<Rightarrow> jsstring \<Rightarrow> json option" where
  "line_payload rt line =
     (if trim line = [] then None
      else
        (case JSON_parse (trim line) of
           Some (JObject ms) \<Rightarrow>
             (if map_of (rev ms) (asc ''type'') = Some (JString (asc ''text''))
              then (case map_of (rev ms) (asc ''part'') of
                      Some (JObject ps) \<Rightarrow>
                        (case map_of (rev ps) (asc ''text'') of
                           Some v \<Rightarrow> if truthy rt (Some v) then Some v else None
                         | None \<Rightarrow> None)
                    | _ \<Rightarrow> None)
              else None)
         | _ \<Rightarrow> None))"

definition text_payloads :: "js_runtime \<Rightarrow> jsstring \<Rightarrow> json list" where
  "text_payloads rt output = List.map_filter (line_payload rt) (split_nl (trim output))"

definition plain_runtime :: js_runtime where
  "plain_runtime =
     \<lparr>number_truthy = (\<lambda>n. True), number_toString = (\<lambda>n. n),
      string_toUpperCase = ascii_toUpperCase, inherited_call = (\<lambda>nm arg. Inl TypeError)\<rparr>"

definition sample_stream :: jsstring where
  "sample_stream =
     asc ''{\"type\":\"text\",\"part\":{\"text\":\"A\"}}'' @ [0x0A] @ asc ''garbage'' @ [0x0A] @
     asc ''{\"type\":\"text\",\"part\":{\"text\":\"B\"}}''"

text \<open>Streams for the examples.\<close>

definition toString_stream :: jsstring where
  "toString_stream = asc ''{\"type\":\"text\",\"part\":{\"text\":{\"toString\":\"x\"}}}''"

definition blank_stream :: jsstring where
  "blank_stream = asc ''  '' @ [0x0A, 0x09] @ asc ''garbage'' @ [0x0D, 0x0A] @ asc ''{\"type\":'' @ [0x0A, 0x0A]"

text \<open>
  The events that leave a launch open: output of the child and calls from outside.
  \<open>stdout_of\<close> is the standard output they carry.
\<close>

fun is_output :: "proc_event \<Rightarrow> bool" where
  "is_output (StdoutData d) = True"
| "is_output (StderrData d) = True"
| "is_output (External c) = True"
| "is_output ev = False"

definition stdout_of :: "proc_event list \<Rightarrow> jsstring" where
  "stdout_of evs = concat (map (\<lambda>ev. case ev of StdoutData d \<Rightarrow> d | _ \<Rightarrow> []) evs)"

text \<open>Worlds and surroundings for the examples.\<close>

definition idle_world :: world where
  "idle_world = \<lparr>cancelled = False, activeProcesses = [], effects = []\<rparr>"

definition answering :: attempt_env where
  "answering =
     \<lparr>env_sleep_calls = [], env_child = 1, env_events = [StdoutData sample_stream, Close],
      env_elapsed = 40, env_hook_calls = []\<rparr>"

definition silent :: attempt_env where
  "silent =
     \<lparr>env_sleep_calls = [], env_child = 2, env_events = [StderrData (asc ''boom''), Close],
      env_elapsed = 15, env_hook_calls = []\<rparr>"

text \<open>
  Instances, options and surroundings for the examples: a round for which the
  command-line tool is missing, and a round in which the cancellation arrives while
  the only expert is in flight.
\<close>

definition fresh_instance :: consilium where
  "fresh_instance = \<lparr>config = DEFAULT_CONFIG, status = Idle, startTime = 0\<rparr>"

definition no_options :: run_options where
  "no_options =
     \<lparr>ro_experts = None, ro_chair = None, ro_outputFile = None, ro_hooks = None, ro_metadata = None\<rparr>"

definition quiet_task :: task_env where
  "quiet_task =
     \<lparr>env_start_calls = [], env_attempts = (\<lambda>k. silent), env_end_calls = [], env_finish = 0\<rparr>"

definition unavailable :: run_env where
  "unavailable =
     \<lparr>env_now_start = 100, env_available = False, env_available_calls = [], env_onStart_calls = [],
      env_experts = (\<lambda>i. quiet_task), env_chair = quiet_task, env_now_end = 200,
      env_save = None, env_save_calls = [], env_onEnd_calls = [], env_onError_calls = []\<rparr>"

definition interrupted_task :: task_env where
  "interrupted_task =
     \<lparr>env_start_calls = [],
      env_attempts = (\<lambda>k. silent\<lparr>env_events := [External CallCancel, Close]\<rparr>),
      env_end_calls = [], env_finish = 0\<rparr>"

definition interrupted :: run_env where
  "interrupted =
     \<lparr>env_now_start = 100, env_available = True, env_available_calls = [], env_onStart_calls = [],
      env_experts = (\<lambda>i. interrupted_task), env_chair = quiet_task, env_now_end = 200,
      env_save = None, env_save_calls = [], env_onEnd_calls = [], env_onError_calls = []\<rparr>"

definition solo_instance :: consilium where
  "solo_instance =
     \<lparr>config = DEFAULT_CONFIG\<lparr>experts :=
        [\<lparr>name = asc ''arch'', prompt = None, timeout = None, retries = None, enabled = Some True\<rparr>]\<rparr>,
      status = Idle, startTime = 0\<rparr>"

text \<open>Outcomes and configurations for the examples of the chair prompt.\<close>

definition outcome_a :: agent_result where
  "outcome_a = \<lparr>agent = asc ''a'', text = asc ''X'', success = True, duration = Some 40,
                errorCode = None, attempt = Some 0\<rparr>"

definition outcome_b :: agent_result where
  "outcome_b = \<lparr>agent = asc ''b'', text = asc ''Y'', success = True, duration = Some 50,
                errorCode = None, attempt = Some 0\<rparr>"

definition short_limit_config :: consilium_config where
  "short_limit_config = DEFAULT_CONFIG\<lparr>chair := DEFAULT_CHAIR\<lparr>maxExpertTextLength := Some 2\<rparr>\<rparr>"

text \<open>The outcome of branch \<open>i\<close> of the fan-out: that of the \<open>i\<close>-th enabled expert.\<close>

definition branch_outcome ::
  "js_runtime \<Rightarrow> expert_config list \<Rightarrow> jsstring \<Rightarrow> consilium_config \<Rightarrow> (nat \<Rightarrow> task_env) \<Rightarrow> world \<Rightarrow>
   nat \<Rightarrow> failure + agent_result" where
  "branch_outcome rt exps task cfg tenvs w i =
     fst (expert_branch rt (enabled_experts exps ! i) task cfg (tenvs i) w)"

text \<open>
  Experts and surroundings for the example of the fan-out: the first enabled expert
  answers and finishes last, the other one answers nothing and finishes first.
\<close>

definition duo :: "expert_config list" where
  "duo =
     [\<lparr>name = asc ''arch'', prompt = None, timeout = None, retries = None, enabled = Some True\<rparr>,
      \<lparr>name = asc ''sec'', prompt = None, timeout = None, retries = None, enabled = Some False\<rparr>,
      \<lparr>name = asc ''ux'', prompt = None, timeout = None, retries = None, enabled = None\<rparr>]"

definition duo_envs :: "nat \<Rightarrow> task_env" where
  "duo_envs i =
     \<lparr>env_start_calls = [],
      env_attempts = (\<lambda>k. if i = 0 then answering else silent),
      env_end_calls = [],
      env_finish = (if i = 0 then 9 else 1)\<rparr>"

section \<open>Properties of the launcher and of the retry loop\<close>

lemma handle_event_ok:
  "launch_ok a l \<Longrightarrow> launch_ok a (fst (handle_event rt a k c ev (l, w)))"
  by (cases ev) (auto simp: launch_ok_def on_close_def on_error_def on_timeout_def finished_def Let_def
      outcome_ok_def empty_result_def success_result_def timeout_result_def spawn_error_result_def
      split: sum.splits)

lemma fold_handle_ok:
  "launch_ok a l \<Longrightarrow> launch_ok a (fst (fold (handle_event rt a k c) evs (l, w)))"
proof (induction evs arbitrary: l w)
  case Nil
  then show ?case by simp
next
  case (Cons ev evs)
  obtain l' w' where h: "handle_event rt a k c ev (l, w) = (l', w')" by (cases "handle_event rt a k c ev (l, w)")
  with Cons.prems handle_event_ok[of a l rt k c ev w] have "launch_ok a l'" by simp
  with Cons.IH[of l' w'] h show ?case by simp
qed

lemma callAgentOnce_ok:
  assumes "callAgentOnce rt a p t k c evs w = (Inr r, w')"
  shows "outcome_ok r \<and> agent r = a"
proof -
  let ?w1 = "w\<lparr>activeProcesses := set_add c (activeProcesses w), effects := effects w @ [Spawn c k p]\<rparr>"
  let ?l0 = "\<lparr>stdout = [], stderr = [], outcome = None\<rparr>"
  obtain l1 w1' where f: "fold (handle_event rt a k c) evs (?l0, ?w1) = (l1, w1')"
    by (cases "fold (handle_event rt a k c) evs (?l0, ?w1)")
  have "launch_ok a ?l0" by (simp add: launch_ok_def)
  from fold_handle_ok[OF this, of rt k c evs ?w1] f have ok1: "launch_ok a l1" by simp
  obtain l2 w2 where t: "on_timeout a k c (l1, w1') = (l2, w2)" by (cases "on_timeout a k c (l1, w1')")
  from handle_event_ok[OF ok1, of rt k c TimerFired w1'] t have ok2: "launch_ok a l2" by simp
  from assms f t show ?thesis using ok2
    by (auto simp: callAgentOnce_def Let_def launch_ok_def outcome_ok_def timeout_result_def
        split: option.splits sum.splits)
qed

lemma ext_step_effects:
  "\<exists>es. effects (ext_step c w) = effects w @ es \<and> list_all is_Kill es"
  by (cases c) (auto simp: cancel_def resetCancel_def list_all_iff)

lemma ext_run_effects:
  "\<exists>es. effects (ext_run cs w) = effects w @ es \<and> list_all is_Kill es"
proof (induction cs arbitrary: w)
  case Nil
  then show ?case by (simp add: ext_run_def)
next
  case (Cons c cs)
  obtain e1 where e1: "effects (ext_step c w) = effects w @ e1" "list_all is_Kill e1"
    using ext_step_effects by blast
  obtain e2 where e2: "effects (ext_run cs (ext_step c w)) = effects (ext_step c w) @ e2" "list_all is_Kill e2"
    using Cons.IH by blast
  from e1 e2 show ?case by (auto simp: ext_run_def)
qed

lemma handle_event_effects:
  "\<exists>es. effects (snd (handle_event rt a k c ev (l, w))) = effects w @ es \<and> list_all is_Kill es"
proof (cases ev)
  case (External x)
  then show ?thesis using ext_step_effects[of x w] by simp
qed (auto simp: on_close_def on_error_def on_timeout_def Let_def split: sum.splits)

lemma fold_handle_effects:
  "\<exists>es. effects (snd (fold (handle_event rt a k c) evs (l, w))) = effects w @ es \<and> list_all is_Kill es"
proof (induction evs arbitrary: l w)
  case Nil
  then show ?case by simp
next
  case (Cons ev evs)
  obtain l' w' where h: "handle_event rt a k c ev (l, w) = (l', w')" by (cases "handle_event rt a k c ev (l, w)")
  obtain e1 where e1: "effects w' = effects w @ e1" "list_all is_Kill e1"
    using handle_event_effects[of rt a k c ev l w] h by auto
  obtain e2 where e2: "effects (snd (fold (handle_event rt a k c) evs (l', w'))) = effects w' @ e2" "list_all is_Kill e2"
    using Cons.IH by blast
  from e1 e2 h show ?case by auto
qed

lemma callAgentOnce_effects:
  "\<exists>es. effects (snd (callAgentOnce rt a p t k c evs w)) =
          effects w @ [Spawn c k p] @ es @
            (case fst (callAgentOnce rt a p t k c evs w) of Inl f \<Rightarrow> [] | Inr r \<Rightarrow> [Settle c])
        \<and> list_all is_Kill es"
proof -
  let ?w1 = "w\<lparr>activeProcesses := set_add c (activeProcesses w), effects := effects w @ [Spawn c k p]\<rparr>"
  let ?l0 = "\<lparr>stdout = [], stderr = [], outcome = None\<rparr>"
  obtain l1 w1' where f: "fold (handle_event rt a k c) evs (?l0, ?w1) = (l1, w1')"
    by (cases "fold (handle_event rt a k c) evs (?l0, ?w1)")
  obtain e1 where e1: "effects w1' = effects ?w1 @ e1" "list_all is_Kill e1"
    using fold_handle_effects[of rt a k c evs ?l0 ?w1] f by auto
  obtain l2 w2 where t: "on_timeout a k c (l1, w1') = (l2, w2)" by (cases "on_timeout a k c (l1, w1')")
  obtain e2 where e2: "effects w2 = effects w1' @ e2" "list_all is_Kill e2"
    using handle_event_effects[of rt a k c TimerFired l1 w1'] t by auto
  have "effects (snd (callAgentOnce rt a p t k c evs w)) =
      effects w2 @ (case fst (callAgentOnce rt a p t k c evs w) of Inl f \<Rightarrow> [] | Inr r \<Rightarrow> [Settle c])"
    using f t by (simp add: callAgentOnce_def Let_def split: option.splits sum.splits)
  with e1 e2 show ?thesis by auto
qed

lemma loop_done:
  "\<not> att < m \<Longrightarrow>
   callAgent_loop rt a p cfg t m ch env att le w =
     (Inr (case le of Some r \<Rightarrow> r | None \<Rightarrow> exhausted_result a), w)"
  by (subst callAgent_loop.simps) simp

lemma loop_cancel:
  "att < m \<Longrightarrow> cancelled w \<Longrightarrow>
   callAgent_loop rt a p cfg t m ch env att le w = (Inr (cancelled_result a att), w)"
  by (subst callAgent_loop.simps) simp

lemma loop_step_cases [consumes 2, case_names crash succeeded hook_throws continue]:
  assumes "att < m" "\<not> cancelled w"
  obtains
    e w2 where
      "callAgentOnce rt a p t att (env_child (env att)) (env_events (env att))
         (before_attempt cfg env att w) = (Inl e, w2)"
      "callAgent_loop rt a p cfg t m ch env att le w = (Inl e, w2)"
  | r w2 where
      "callAgentOnce rt a p t att (env_child (env att)) (env_events (env att))
         (before_attempt cfg env att w) = (Inr r, w2)"
      "success r"
      "callAgent_loop rt a p cfg t m ch env att le w =
         (Inr (r\<lparr>duration := Some (env_elapsed (env att))\<rparr>), w2)"
  | r w2 h e where
      "callAgentOnce rt a p t att (env_child (env att)) (env_events (env att))
         (before_attempt cfg env att w) = (Inr r, w2)"
      "\<not> success r" "error_hook cfg ch = Some h" "h r = Some e"
      "callAgent_loop rt a p cfg t m ch env att le w =
         (Inl (Rejected e), ext_run (env_hook_calls (env att)) w2)"
  | r w2 w3 where
      "callAgentOnce rt a p t att (env_child (env att)) (env_events (env att))
         (before_attempt cfg env att w) = (Inr r, w2)"
      "\<not> success r"
      "w3 = w2 \<or> w3 = ext_run (env_hook_calls (env att)) w2"
      "callAgent_loop rt a p cfg t m ch env att le w =
         callAgent_loop rt a p cfg t m ch env (att + 1) (Some r) w3"
proof -
  let ?once = "callAgentOnce rt a p t att (env_child (env att)) (env_events (env att))
         (before_attempt cfg env att w)"
  obtain x w2 where once: "?once = (x, w2)" by (cases ?once)
  have unfold: "callAgent_loop rt a p cfg t m ch env att le w =
     (case ?once of
        (Inl e, w2) \<Rightarrow> (Inl e, w2)
      | (Inr result, w2) \<Rightarrow>
          if success result
          then (Inr (result\<lparr>duration := Some (env_elapsed (env att))\<rparr>), w2)
          else
            (case error_hook cfg ch of
               None \<Rightarrow> callAgent_loop rt a p cfg t m ch env (att + 1) (Some result) w2
             | Some h \<Rightarrow>
                 (case h result of
                    Some e \<Rightarrow> (Inl (Rejected e), ext_run (env_hook_calls (env att)) w2)
                  | None \<Rightarrow>
                      callAgent_loop rt a p cfg t m ch env (att + 1) (Some result)
                        (ext_run (env_hook_calls (env att)) w2))))"
    using assms by (subst callAgent_loop.simps) (simp add: before_attempt_def Let_def)
  show thesis
  proof (cases x)
    case (Inl e)
    with once unfold show thesis using that(1) by simp
  next
    case (Inr r)
    show thesis
    proof (cases "success r")
      case True
      with Inr once unfold show thesis using that(2) by simp
    next
      case False
      show thesis
      proof (cases "error_hook cfg ch")
        case None
        with False Inr once unfold show thesis using that(4)[of r w2 w2] by simp
      next
        case (Some h)
        show thesis
        proof (cases "h r")
          case None
          with Some False Inr once unfold show thesis
            using that(4)[of r w2 "ext_run (env_hook_calls (env att)) w2"] by simp
        next
          case (Some e)
          with \<open>error_hook cfg ch = Some h\<close> False Inr once unfold show thesis
            using that(3)[of r w2 h e] by simp
        qed
      qed
    qed
  qed
qed

lemma callAgent_loop_ok:
  assumes "\<forall>r. le = Some r \<longrightarrow> outcome_ok r \<and> agent r = a"
    and "callAgent_loop rt a p cfg t m ch env att le w = (Inr r, w')"
  shows "outcome_ok r \<and> agent r = a"
  using assms
proof (induction "nat (m - att)" arbitrary: att le w)
  case 0
  then have "\<not> att < m" by simp
  from loop_done[OF this] "0.prems" show ?case
    by (auto simp: outcome_ok_def exhausted_result_def split: option.splits)
next
  case (Suc k)
  then have lt: "att < m" by simp
  show ?case
  proof (cases "cancelled w")
    case True
    from loop_cancel[OF lt True] Suc.prems show ?thesis
      by (auto simp: outcome_ok_def cancelled_result_def)
  next
    case False
    from lt False show ?thesis
    proof (cases rule: loop_step_cases[where rt=rt and a=a and p=p and t=t and env=env and cfg=cfg and ch=ch and le=le])
      case (crash e w2)
      with Suc.prems show ?thesis by simp
    next
      case (succeeded r0 w2)
      with Suc.prems callAgentOnce_ok[OF succeeded(1)] show ?thesis
        by (auto simp: outcome_ok_def)
    next
      case (hook_throws r0 w2 h e)
      with Suc.prems show ?thesis by simp
    next
      case (continue r0 w2 w3)
      have k: "k = nat (m - (att + 1))" using Suc.hyps(2) by simp
      from callAgentOnce_ok[OF continue(1)]
      have "\<forall>r. Some r0 = Some r \<longrightarrow> outcome_ok r \<and> agent r = a" by simp
      from Suc.hyps(1)[OF k this] continue(4) Suc.prems(2) show ?thesis by simp
    qed
  qed
qed

lemma before_attempt_effects:
  "\<exists>es. effects (before_attempt cfg env att w) =
           effects w @ (if att > 0 then [Sleep (calculateRetryDelay (att - 1) (delay (retry cfg))
                     (exponentialBackoff (retry cfg)))] else []) @ es \<and> list_all is_Kill es"
proof (cases "att > 0")
  case True
  let ?w = "w\<lparr>effects := effects w @ [Sleep (calculateRetryDelay (att - 1) (delay (retry cfg))
                     (exponentialBackoff (retry cfg)))]\<rparr>"
  from ext_run_effects[of "env_sleep_calls (env att)" ?w] True show ?thesis
    by (auto simp: before_attempt_def backoff_sleep_def Let_def)
next
  case False
  then show ?thesis by (simp add: before_attempt_def)
qed

lemma steps_only_kills: "list_all is_Kill es \<Longrightarrow> steps_only es = []"
  by (induction es) (auto simp: steps_only_def)

lemma steps_only_append: "steps_only (xs @ ys) = steps_only xs @ steps_only ys"
  by (simp add: steps_only_def)

lemma steps_only_Nil: "steps_only [] = []"
  by (simp add: steps_only_def)

lemma steps_only_Cons: "steps_only (e # es) = (if is_Kill e then steps_only es else e # steps_only es)"
  by (simp add: steps_only_def)

lemma attempt_effects:
  assumes "callAgentOnce rt a p t att (env_child (env att)) (env_events (env att))
         (before_attempt cfg env att w) = (x, w2)"
  shows "\<exists>es. effects w2 = effects w @ es \<and>
    steps_only (es @ (case x of Inl f \<Rightarrow> [Settle (env_child (env att))] | Inr r \<Rightarrow> [])) =
      attempt_steps cfg p env att"
proof -
  let ?settled = "case x of Inl f \<Rightarrow> [] | Inr r \<Rightarrow> [Settle (env_child (env att))]"
  let ?open = "case x of Inl f \<Rightarrow> [Settle (env_child (env att))] | Inr r \<Rightarrow> []"
  obtain e1 where e1: "effects (before_attempt cfg env att w) =
           effects w @ (if att > 0 then [Sleep (calculateRetryDelay (att - 1) (delay (retry cfg))
                     (exponentialBackoff (retry cfg)))] else []) @ e1" "list_all is_Kill e1"
    using before_attempt_effects by blast
  obtain e2 where e2: "effects w2 = effects (before_attempt cfg env att w) @
       [Spawn (env_child (env att)) att p] @ e2 @ ?settled" "list_all is_Kill e2"
    using callAgentOnce_effects[of rt a p t att "env_child (env att)" "env_events (env att)" "before_attempt cfg env att w"] assms
    by auto
  let ?es = "(if att > 0 then [Sleep (calculateRetryDelay (att - 1) (delay (retry cfg))
                     (exponentialBackoff (retry cfg)))] else []) @ e1 @
       [Spawn (env_child (env att)) att p] @ e2 @ ?settled"
  have "effects w2 = effects w @ ?es" using e1 e2 by simp
  moreover have "steps_only (?es @ ?open) = attempt_steps cfg p env att"
    using e1(2) e2(2)
    by (cases x)
      (simp_all add: steps_only_append steps_only_kills attempt_steps_def steps_only_Cons steps_only_Nil)
  ultimately show ?thesis by blast
qed

lemma concat_steps_Suc:
  "concat (map (\<lambda>i. f (att + int i)) [0..<Suc n]) =
   f att @ concat (map (\<lambda>i. f (att + 1 + int i)) [0..<n])"
proof -
  have "map (\<lambda>i. f (att + int i)) [0..<Suc n] = f att # map (\<lambda>i. f (att + 1 + int i)) [0..<n]"
    by (simp add: map_upt_Suc del: upt_Suc) (simp add: add.commute add.left_commute)
  then show ?thesis by simp
qed

lemma callAgent_loop_effects:
  "\<exists>n es rest. n \<le> nat (m - att) \<and>
      effects (snd (callAgent_loop rt a p cfg t m ch env att le w)) = effects w @ es \<and>
      (rest = [] \<or> (\<exists>c. rest = [Settle c])) \<and>
      steps_only (es @ rest) = concat (map (\<lambda>i. attempt_steps cfg p env (att + int i)) [0..<n])"
proof (induction "nat (m - att)" arbitrary: att le w)
  case 0
  then have "\<not> att < m" by simp
  from loop_done[OF this, of rt a p cfg t ch env le w] show ?case
    by (intro exI[of _ 0] exI[of _ "[]"]) (simp add: steps_only_def)
next
  case (Suc k)
  then have lt: "att < m" by simp
  have k: "k = nat (m - (att + 1))" using Suc.hyps(2) by simp
  have one: "Suc 0 \<le> nat (m - att)" using lt by simp
  have single: "\<exists>n es rest. n \<le> nat (m - att) \<and> effects w2 = effects w @ es \<and>
      (rest = [] \<or> (\<exists>c. rest = [Settle c])) \<and>
      steps_only (es @ rest) = concat (map (\<lambda>i. attempt_steps cfg p env (att + int i)) [0..<n])"
    if "effects w2 = effects w @ es" "rest = [] \<or> (\<exists>c. rest = [Settle c])"
      "steps_only (es @ rest) = attempt_steps cfg p env att" for w2 es rest
    using that one by (intro exI[of _ "Suc 0"] exI[of _ es] exI[of _ rest]) simp
  show ?case
  proof (cases "cancelled w")
    case True
    from loop_cancel[OF lt True, of rt a p cfg t ch env le] show ?thesis
      by (intro exI[of _ 0] exI[of _ "[]"]) (simp add: steps_only_def)
  next
    case False
    from lt False show ?thesis
    proof (cases rule: loop_step_cases[where rt=rt and a=a and p=p and t=t and env=env and cfg=cfg and ch=ch and le=le])
      case (crash e w2)
      obtain es where es: "effects w2 = effects w @ es"
        "steps_only (es @ [Settle (env_child (env att))]) = attempt_steps cfg p env att"
        using attempt_effects[OF crash(1)] by auto
      from single[OF es(1) _ es(2)] crash(2) show ?thesis by simp
    next
      case (succeeded r0 w2)
      obtain es where es: "effects w2 = effects w @ es" "steps_only (es @ []) = attempt_steps cfg p env att"
        using attempt_effects[OF succeeded(1)] by auto
      from single[OF es(1) _ es(2)] succeeded(3) show ?thesis by simp
    next
      case (hook_throws r0 w2 h e)
      obtain es where es: "effects w2 = effects w @ es" "steps_only es = attempt_steps cfg p env att"
        using attempt_effects[OF hook_throws(1)] by auto
      obtain e3 where e3: "effects (ext_run (env_hook_calls (env att)) w2) = effects w2 @ e3" "list_all is_Kill e3"
        using ext_run_effects by blast
      have a: "effects (ext_run (env_hook_calls (env att)) w2) = effects w @ (es @ e3)"
        using es e3 by simp
      have b: "steps_only ((es @ e3) @ []) = attempt_steps cfg p env att"
        using es e3 by (simp add: steps_only_append steps_only_kills)
      from single[OF a _ b] hook_throws(5) show ?thesis by simp
    next
      case (continue r0 w2 w3)
      obtain es where es: "effects w2 = effects w @ es" "steps_only es = attempt_steps cfg p env att"
        using attempt_effects[OF continue(1)] by auto
      obtain e3 where e3: "effects w3 = effects w2 @ e3" "list_all is_Kill e3"
        using continue(3) ext_run_effects[of "env_hook_calls (env att)" w2] by auto
      from Suc.hyps(1)[OF k, of "Some r0" w3]
      obtain n es' rest where rec: "n \<le> nat (m - (att + 1))"
        "effects (snd (callAgent_loop rt a p cfg t m ch env (att + 1) (Some r0) w3)) = effects w3 @ es'"
        "rest = [] \<or> (\<exists>c. rest = [Settle c])"
        "steps_only (es' @ rest) = concat (map (\<lambda>i. attempt_steps cfg p env (att + 1 + int i)) [0..<n])"
        by blast
      have "Suc n \<le> nat (m - att)" using rec(1) lt by simp
      moreover have "effects (snd (callAgent_loop rt a p cfg t m ch env att le w)) = effects w @ (es @ e3 @ es')"
        using continue(4) rec(2) e3(1) es(1) by simp
      moreover have "steps_only ((es @ e3 @ es') @ rest) = steps_only es @ steps_only e3 @ steps_only (es' @ rest)"
        by (simp add: steps_only_append)
      then have "steps_only ((es @ e3 @ es') @ rest) =
            concat (map (\<lambda>i. attempt_steps cfg p env (att + int i)) [0..<Suc n])"
        using es(2) e3(2) rec(4)
        by (simp only: concat_steps_Suc steps_only_kills) simp
      ultimately show ?thesis using rec(3) by blast
    qed
  qed
qed

section \<open>Properties of the decoder\<close>

lemma map_filter_Cons:
  "List.map_filter f (x # xs) = (case f x of None \<Rightarrow> List.map_filter f xs | Some y \<Rightarrow> y # List.map_filter f xs)"
  by (simp add: List.map_filter_def split: option.splits)

lemma truthy_None: "\<not> truthy rt None"
  by (simp add: truthy_def)

lemma parse_lines_payloads:
  "parse_lines rt lines acc = acc @ List.map_filter (line_payload rt) lines"
proof (induction lines arbitrary: acc)
  case Nil
  then show ?case by (simp add: List.map_filter_def)
next
  case (Cons line lines)
  show ?case
  proof (cases "trim line = []")
    case True
    then show ?thesis using Cons.IH by (simp add: map_filter_Cons line_payload_def)
  next
    case False
    show ?thesis
    proof (cases "JSON_parse (trim line)")
      case None
      with False show ?thesis using Cons.IH by (simp add: map_filter_Cons line_payload_def)
    next
      case (Some ev)
      show ?thesis
      proof (cases ev)
        case (JObject ms)
        with Some False show ?thesis using Cons.IH
          by (auto simp: map_filter_Cons line_payload_def get_prop_def get_prop_opt_def Let_def truthy_None
              split: option.splits json.splits)
      qed (use Some False Cons.IH in \<open>simp_all add: map_filter_Cons line_payload_def get_prop_def get_prop_opt_def Let_def truthy_None\<close>)
    qed
  qed
qed

lemma parseJsonOutput_payloads:
  "parseJsonOutput rt output = join_empty rt (text_payloads rt output)"
  by (simp add: parseJsonOutput_def text_payloads_def parse_lines_payloads)

lemma lex_sample_A: "lex (asc ''{\"type\":\"text\",\"part\":{\"text\":\"A\"}}'') =
   Some [LBrace, TString (asc ''type''), Colon, TString (asc ''text''), Comma, TString (asc ''part''), Colon, LBrace,
     TString (asc ''text''), Colon, TString (asc ''A''), RBrace, RBrace]"
  by (simp add: asc_def is_json_ws_def simple_escape_def is_number_char_def is_digit_def)

lemma lex_sample_B: "lex (asc ''{\"type\":\"text\",\"part\":{\"text\":\"B\"}}'') =
   Some [LBrace, TString (asc ''type''), Colon, TString (asc ''text''), Comma, TString (asc ''part''), Colon, LBrace,
     TString (asc ''text''), Colon, TString (asc ''B''), RBrace, RBrace]"
  by (simp add: asc_def is_json_ws_def simple_escape_def is_number_char_def is_digit_def)

lemma parse_sample_A: "JSON_parse (asc ''{\"type\":\"text\",\"part\":{\"text\":\"A\"}}'') =
   Some (JObject [(asc ''type'', JString (asc ''text'')), (asc ''part'', JObject [(asc ''text'', JString (asc ''A''))])])"
  unfolding JSON_parse_def lex_sample_A
  by (simp add: open_or_scalar_def take_key_def scalar_of_def close_object_def close_array_def)

lemma parse_sample_B: "JSON_parse (asc ''{\"type\":\"text\",\"part\":{\"text\":\"B\"}}'') =
   Some (JObject [(asc ''type'', JString (asc ''text'')), (asc ''part'', JObject [(asc ''text'', JString (asc ''B''))])])"
  unfolding JSON_parse_def lex_sample_B
  by (simp add: open_or_scalar_def take_key_def scalar_of_def close_object_def close_array_def)

lemma parse_garbage: "JSON_parse (asc ''garbage'') = None"
  by (simp add: JSON_parse_def asc_def is_json_ws_def simple_escape_def is_number_char_def is_digit_def)

lemma trim_sample_A: "trim (asc ''{\"type\":\"text\",\"part\":{\"text\":\"A\"}}'') = asc ''{\"type\":\"text\",\"part\":{\"text\":\"A\"}}''"
  by (simp add: trim_def asc_def is_js_space_def)

lemma trim_sample_B: "trim (asc ''{\"type\":\"text\",\"part\":{\"text\":\"B\"}}'') = asc ''{\"type\":\"text\",\"part\":{\"text\":\"B\"}}''"
  by (simp add: trim_def asc_def is_js_space_def)

lemma trim_garbage: "trim (asc ''garbage'') = asc ''garbage''"
  by (simp add: trim_def asc_def is_js_space_def)

lemma split_sample:
  "split_nl (trim sample_stream) =
     [asc ''{\"type\":\"text\",\"part\":{\"text\":\"A\"}}'', asc ''garbage'',
      asc ''{\"type\":\"text\",\"part\":{\"text\":\"B\"}}'']"
  by (simp add: sample_stream_def trim_def asc_def is_js_space_def)

lemma asc_nonempty: "asc ''garbage'' \<noteq> []" "asc ''{\"type\":\"text\",\"part\":{\"text\":\"A\"}}'' \<noteq> []"
  "asc ''{\"type\":\"text\",\"part\":{\"text\":\"B\"}}'' \<noteq> []"
  by (simp_all add: asc_def)

lemma asc_keys: "asc ''part'' \<noteq> asc ''type''" "asc ''type'' \<noteq> asc ''part''" "asc ''A'' \<noteq> []" "asc ''B'' \<noteq> []"
  by (simp_all add: asc_def)

lemma sample_payloads: "text_payloads rt sample_stream = [JString (asc ''A''), JString (asc ''B'')]"
  unfolding text_payloads_def split_sample
  by (simp add: map_filter_Cons line_payload_def trim_sample_A trim_sample_B trim_garbage
      parse_sample_A parse_sample_B parse_garbage asc_nonempty asc_keys truthy_def List.map_filter_def)

lemma split_blank:
  "split_nl (trim blank_stream) = [asc ''garbage'' @ [0x0D], asc ''{\"type\":'']"
  by (simp add: blank_stream_def trim_def asc_def is_js_space_def)

lemma blank_lines_unparseable:
  "list_all (\<lambda>l. trim l = [] \<or> JSON_parse (trim l) = None) (split_nl (trim blank_stream))"
  unfolding split_blank
  by (simp add: trim_def asc_def is_js_space_def JSON_parse_def is_json_ws_def simple_escape_def
      is_number_char_def is_digit_def take_key_def open_or_scalar_def scalar_of_def)

lemma payloads_none:
  "list_all (\<lambda>l. trim l = [] \<or> JSON_parse (trim l) = None) ls \<Longrightarrow> List.map_filter (line_payload rt) ls = []"
  by (induction ls) (auto simp: map_filter_Cons line_payload_def List.map_filter_def)

lemma lex_toString: "lex toString_stream =
   Some [LBrace, TString (asc ''type''), Colon, TString (asc ''text''), Comma, TString (asc ''part''), Colon, LBrace,
     TString (asc ''text''), Colon, LBrace, TString (asc ''toString''), Colon, TString (asc ''x''), RBrace, RBrace, RBrace]"
  by (simp add: toString_stream_def asc_def is_json_ws_def simple_escape_def is_number_char_def is_digit_def)

text \<open>
  Claim C6 does not hold of the code. The stream \<open>toString_stream\<close> is one line, a
  record tagged \<open>text\<close> whose payload is an object with a member \<open>toString\<close>. The
  record passes the test of the loop and is collected; the final \<open>join\<close>, which is
  outside the \<open>try\<close> that absorbs every other malformed line, throws a \<open>TypeError\<close>.
  In a launch the decoder runs inside the \<open>close\<close> listener, where nothing catches the
  error: the launch is never settled.
\<close>

theorem parseJsonOutput_throws:
  "parseJsonOutput plain_runtime toString_stream = Inl TypeError \<and>
   fst (callAgentOnce plain_runtime (asc ''arch'') (asc ''task'') 300000 0 1
          [StdoutData toString_stream, Close] idle_world) = Inl (Uncaught TypeError)"
proof -
  have p: "JSON_parse toString_stream =
     Some (JObject [(asc ''type'', JString (asc ''text'')),
       (asc ''part'', JObject [(asc ''text'', JObject [(asc ''toString'', JString (asc ''x''))])])])"
    unfolding JSON_parse_def lex_toString
    by (simp add: open_or_scalar_def take_key_def scalar_of_def close_object_def close_array_def)
  have t: "trim toString_stream = toString_stream"
    by (simp add: toString_stream_def trim_def asc_def is_js_space_def)
  have s: "split_nl toString_stream = [toString_stream]"
    by (simp add: toString_stream_def asc_def)
  have n: "toString_stream \<noteq> []" by (simp add: toString_stream_def asc_def)
  have d: "parseJsonOutput plain_runtime toString_stream = Inl TypeError"
    by (simp add: parseJsonOutput_def t s n p get_prop_def get_prop_opt_def truthy_def asc_keys
        join_empty_def)
  have l: "fst (callAgentOnce plain_runtime (asc ''arch'') (asc ''task'') 300000 0 1
          [StdoutData toString_stream, Close] idle_world) = Inl (Uncaught TypeError)"
    by (simp add: callAgentOnce_def on_close_def on_timeout_def finished_def d idle_world_def
        set_add_def set_delete_def Let_def)
  from d l show ?thesis by (rule conjI)
qed

text \<open>
  What the decoder returns when the conversions of the final \<open>join\<close> succeed (a string
  converts to itself): the concatenation, in line order and with no separator, of the
  payloads it collected. Blank lines and lines that fail to parse contribute nothing
  and raise no error, so a stream of only such lines decodes to the empty string; the
  stream of the specification decodes to \<open>AB\<close>.
\<close>

lemma parseJsonOutput_decodes:
  "(those (map (ToString rt) (text_payloads rt output)) = Some ss \<longrightarrow>
      parseJsonOutput rt output = Inr (concat ss)) \<and>
   (list_all (\<lambda>l. trim l = [] \<or> JSON_parse (trim l) = None) (split_nl (trim output')) \<longrightarrow>
      parseJsonOutput rt output' = Inr []) \<and>
   parseJsonOutput rt sample_stream = Inr (asc ''AB'')"
proof (intro conjI impI)
  assume "those (map (ToString rt) (text_payloads rt output)) = Some ss"
  then show "parseJsonOutput rt output = Inr (concat ss)"
    by (simp add: parseJsonOutput_payloads join_empty_def)
next
  assume "list_all (\<lambda>l. trim l = [] \<or> JSON_parse (trim l) = None) (split_nl (trim output'))"
  then have "text_payloads rt output' = []"
    by (simp add: text_payloads_def payloads_none)
  then show "parseJsonOutput rt output' = Inr []"
    by (simp add: parseJsonOutput_payloads join_empty_def)
next
  show "parseJsonOutput rt sample_stream = Inr (asc ''AB'')"
    by (simp add: parseJsonOutput_payloads sample_payloads join_empty_def asc_def)
qed

lemma parseJsonOutput_decodes_examples:
  "those (map (ToString plain_runtime) (text_payloads plain_runtime sample_stream)) =
     Some [asc ''A'', asc ''B''] \<and>
   parseJsonOutput plain_runtime sample_stream = Inr (concat [asc ''A'', asc ''B'']) \<and>
   list_all (\<lambda>l. trim l = [] \<or> JSON_parse (trim l) = None) (split_nl (trim blank_stream)) \<and>
   parseJsonOutput plain_runtime blank_stream = Inr []"
proof -
  have a: "those (map (ToString plain_runtime) (text_payloads plain_runtime sample_stream)) =
     Some [asc ''A'', asc ''B'']"
    by (simp add: sample_payloads)
  from parseJsonOutput_decodes[of plain_runtime sample_stream "[asc ''A'', asc ''B'']" blank_stream] a
    blank_lines_unparseable
  show ?thesis by blast
qed

section \<open>Outcomes of the launcher\<close>

lemma handle_event_finished:
  "outcome l \<noteq> None \<Longrightarrow> outcome (fst (handle_event rt a k c ev (l, w))) = outcome l"
  by (cases ev) (simp_all add: on_close_def on_error_def on_timeout_def finished_def)

lemma fold_handle_finished:
  "outcome l \<noteq> None \<Longrightarrow> outcome (fst (fold (handle_event rt a k c) evs (l, w))) = outcome l"
proof (induction evs arbitrary: l w)
  case Nil
  then show ?case by simp
next
  case (Cons ev evs)
  obtain l' w' where h: "handle_event rt a k c ev (l, w) = (l', w')"
    by (cases "handle_event rt a k c ev (l, w)")
  with Cons.prems handle_event_finished[of l rt a k c ev w] have "outcome l' = outcome l" by simp
  with Cons.IH[of l' w'] Cons.prems h show ?case by simp
qed

lemma fold_handle_output:
  "list_all is_output evs \<Longrightarrow>
   outcome (fst (fold (handle_event rt a k c) evs (l, w))) = outcome l \<and>
   stdout (fst (fold (handle_event rt a k c) evs (l, w))) = stdout l @ stdout_of evs \<and>
   stderr (fst (fold (handle_event rt a k c) evs (l, w))) =
     stderr l @ concat (map (\<lambda>ev. case ev of StderrData d \<Rightarrow> d | _ \<Rightarrow> []) evs)"
proof (induction evs arbitrary: l w)
  case Nil
  then show ?case by (simp add: stdout_of_def)
next
  case (Cons ev evs)
  then show ?case by (cases ev) (simp_all add: stdout_of_def)
qed

lemma callAgentOnce_close:
  assumes "list_all is_output pre"
  shows "fst (callAgentOnce rt a p t k c (pre @ Close # post) w) =
     (case parseJsonOutput rt (stdout_of pre) of
        Inl e \<Rightarrow> Inl (Uncaught e)
      | Inr txt \<Rightarrow>
          if txt = []
          then Inr (empty_result a (concat (map (\<lambda>ev. case ev of StderrData d \<Rightarrow> d | _ \<Rightarrow> []) pre)) k)
          else Inr (success_result a txt k))"
proof -
  let ?w1 = "w\<lparr>activeProcesses := set_add c (activeProcesses w), effects := effects w @ [Spawn c k p]\<rparr>"
  let ?l0 = "\<lparr>stdout = [], stderr = [], outcome = None\<rparr>"
  let ?h = "handle_event rt a k c"
  obtain l1 w1 where f1: "fold ?h pre (?l0, ?w1) = (l1, w1)" by (cases "fold ?h pre (?l0, ?w1)")
  from fold_handle_output[OF assms, of rt a k c ?l0 ?w1] f1
  have l1: "outcome l1 = None" "stdout l1 = stdout_of pre"
    "stderr l1 = concat (map (\<lambda>ev. case ev of StderrData d \<Rightarrow> d | _ \<Rightarrow> []) pre)" by simp_all
  obtain l2 w2 where f2: "on_close rt a k c (l1, w1) = (l2, w2)" by (cases "on_close rt a k c (l1, w1)")
  have l2: "outcome l2 = Some (case parseJsonOutput rt (stdout_of pre) of
        Inl e \<Rightarrow> Inl (Uncaught e)
      | Inr txt \<Rightarrow>
          if txt = []
          then Inr (empty_result a (concat (map (\<lambda>ev. case ev of StderrData d \<Rightarrow> d | _ \<Rightarrow> []) pre)) k)
          else Inr (success_result a txt k))"
    using f2 l1 by (auto simp: on_close_def finished_def Let_def split: sum.splits)
  obtain l3 w3 where f3: "fold ?h post (l2, w2) = (l3, w3)" by (cases "fold ?h post (l2, w2)")
  from fold_handle_finished[of l2 rt a k c post w2] l2 f3 have l3: "outcome l3 = outcome l2" by simp
  obtain l4 w4 where f4: "on_timeout a k c (l3, w3) = (l4, w4)" by (cases "on_timeout a k c (l3, w3)")
  from handle_event_finished[of l3 rt a k c TimerFired w3] l3 l2 f4 have l4: "outcome l4 = outcome l2" by simp
  have "fold ?h (pre @ Close # post) (?l0, ?w1) = (l3, w3)" using f1 f2 f3 by simp
  then show ?thesis using f4 l4 l2
    by (cases "parseJsonOutput rt (stdout_of pre)") (simp_all add: callAgentOnce_def Let_def)
qed

text \<open>
  Claim C7. When the \<open>close\<close> event arrives on an open launch (before it only output
  and calls from outside) and the captured standard output decodes to the empty text,
  the outcome of the launch is a failure classified \<open>EMPTY_RESPONSE\<close>, whatever
  arrives afterwards.
\<close>

theorem empty_response_is_failure:
  assumes "list_all is_output pre" and "parseJsonOutput rt (stdout_of pre) = Inr []"
  shows "\<exists>r. fst (callAgentOnce rt a p t k c (pre @ Close # post) w) = Inr r \<and>
             \<not> success r \<and> errorCode r = Some EMPTY_RESPONSE"
  using callAgentOnce_close[OF assms(1), of rt a p t k c post w] assms(2)
  by (simp add: empty_result_def Let_def)

lemma decode_nothing: "parseJsonOutput rt [] = Inr []"
  by (simp add: parseJsonOutput_def trim_def join_empty_def)

theorem empty_response_is_failure_witness:
  "list_all is_output [StderrData (asc ''boom'')] \<and>
   parseJsonOutput plain_runtime (stdout_of [StderrData (asc ''boom'')]) = Inr [] \<and>
   (\<exists>r. fst (callAgentOnce plain_runtime (asc ''arch'') (asc ''task'') 300000 0 2
              ([StderrData (asc ''boom'')] @ Close # []) idle_world) = Inr r \<and>
        \<not> success r \<and> errorCode r = Some EMPTY_RESPONSE)"
proof -
  have a: "list_all is_output [StderrData (asc ''boom'')]" by simp
  have b: "parseJsonOutput plain_runtime (stdout_of [StderrData (asc ''boom'')]) = Inr []"
    by (simp add: stdout_of_def decode_nothing)
  from empty_response_is_failure[OF a b] a b show ?thesis by blast
qed

lemma decode_sample: "parseJsonOutput rt sample_stream = Inr (asc ''AB'')"
  by (simp add: parseJsonOutput_payloads sample_payloads join_empty_def asc_def)

text \<open>
  Claim C9. Every outcome of a launch and every outcome of \<open>callAgent\<close> (a success,
  an empty response, a timeout, a spawn error, a cancellation, the exhausted attempts)
  satisfies the invariant: a success has no error code and a non-empty text.
\<close>

theorem outcome_invariant:
  "(\<forall>r w'. callAgentOnce rt a p t k c evs w = (Inr r, w') \<longrightarrow> outcome_ok r) \<and>
   (\<forall>r w'. callAgent rt a p cfg opts env w = (Inr r, w') \<longrightarrow> outcome_ok r)"
proof (intro conjI allI impI)
  fix r w'
  assume "callAgentOnce rt a p t k c evs w = (Inr r, w')"
  from callAgentOnce_ok[OF this] show "outcome_ok r" by simp
next
  fix r w'
  assume "callAgent rt a p cfg opts env w = (Inr r, w')"
  then obtain tmo m ch where "callAgent_loop rt a p cfg tmo m ch env 0 None w = (Inr r, w')"
    by (simp add: callAgent_def Let_def)
  from callAgent_loop_ok[OF _ this] show "outcome_ok r" by simp
qed

lemma answering_once:
  "fst (callAgentOnce plain_runtime (asc ''arch'') (asc ''task'') 300000 0 1
         [StdoutData sample_stream, Close] idle_world) =
   Inr (success_result (asc ''arch'') (asc ''AB'') 0)"
proof -
  have "fst (callAgentOnce plain_runtime (asc ''arch'') (asc ''task'') 300000 0 1
         ([StdoutData sample_stream] @ Close # []) idle_world) =
   Inr (success_result (asc ''arch'') (asc ''AB'') 0)"
    by (subst callAgentOnce_close) (simp_all add: stdout_of_def decode_sample asc_def)
  then show ?thesis by simp
qed

theorem outcome_invariant_witness:
  "fst (callAgentOnce plain_runtime (asc ''arch'') (asc ''task'') 300000 0 1
         [StdoutData sample_stream, Close] idle_world) =
     Inr (success_result (asc ''arch'') (asc ''AB'') 0) \<and>
   success (success_result (asc ''arch'') (asc ''AB'') 0) \<and>
   outcome_ok (success_result (asc ''arch'') (asc ''AB'') 0)"
proof -
  obtain w' where e: "callAgentOnce plain_runtime (asc ''arch'') (asc ''task'') 300000 0 1
         [StdoutData sample_stream, Close] idle_world = (Inr (success_result (asc ''arch'') (asc ''AB'') 0), w')"
    using answering_once by (metis prod.collapse)
  from outcome_invariant[of plain_runtime "asc ''arch''" "asc ''task''" 300000 0 1
      "[StdoutData sample_stream, Close]" idle_world] e
  have "outcome_ok (success_result (asc ''arch'') (asc ''AB'') 0)" by blast
  with answering_once show ?thesis by (simp add: success_result_def)
qed

section \<open>Attempts, delays and cancellation of the retry controller\<close>

lemma callAgent_effects:
  "\<exists>n es rest. n \<le> nat (nullish_default (opt_retries opts) (expertRetries (retry cfg)) + 1) \<and>
      effects (snd (callAgent rt a p cfg opts env w)) = effects w @ es \<and>
      (rest = [] \<or> (\<exists>c. rest = [Settle c])) \<and>
      steps_only (es @ rest) = concat (map (\<lambda>i. attempt_steps cfg p env (int i)) [0..<n])"
proof -
  let ?tmo = "case opt_timeout opts of None \<Rightarrow> timeouts_expert (timeouts cfg) | Some t \<Rightarrow> t"
  let ?m = "nullish_default (opt_retries opts) (expertRetries (retry cfg)) + 1"
  let ?ch = "case opt_isChair opts of None \<Rightarrow> False | Some b \<Rightarrow> b"
  have c: "callAgent rt a p cfg opts env w = callAgent_loop rt a p cfg ?tmo ?m ?ch env 0 None w"
    by (simp add: callAgent_def Let_def nullish_default_def)
  from callAgent_loop_effects[of ?m 0 rt a p cfg ?tmo ?ch env None w] c
  show ?thesis by simp
qed

lemma effects_since_append: "effects w' = effects w @ es \<Longrightarrow> effects_since w w' = es"
  by (simp add: effects_since_def)

lemma filter_steps_only: "(\<And>e. P e \<Longrightarrow> \<not> is_Kill e) \<Longrightarrow> filter P (steps_only es) = filter P es"
  by (induction es) (auto simp: steps_only_def)

lemma sequential_steps_only: "sequential q (steps_only es) = sequential q es"
proof (induction es arbitrary: q)
  case Nil
  then show ?case by (simp add: steps_only_def)
next
  case (Cons e es)
  then show ?case by (cases e) (simp_all add: steps_only_def)
qed

lemma sequential_prefix: "sequential q (xs @ ys) \<Longrightarrow> sequential q xs"
proof (induction xs arbitrary: q)
  case Nil
  then show ?case by simp
next
  case (Cons e es)
  then show ?case by (cases e) auto
qed

lemma filter_open_launch:
  "rest = [] \<or> (\<exists>c. rest = [Settle c]) \<Longrightarrow> filter is_Sleep_or_Spawn rest = []"
  by auto

lemma filter_open_spawn: "rest = [] \<or> (\<exists>c. rest = [Settle c]) \<Longrightarrow> filter is_Spawn rest = []"
  by auto

lemma sequential_attempt_steps:
  "sequential None (attempt_steps cfg p env k @ es) = sequential None es"
  by (simp add: attempt_steps_def)

lemma sequential_attempts:
  "sequential None (concat (map (\<lambda>i. attempt_steps cfg p env (att + int i)) [0..<n]))"
proof (induction n arbitrary: att)
  case 0
  then show ?case by simp
next
  case (Suc n)
  show ?case
    by (simp only: concat_steps_Suc sequential_attempt_steps Suc.IH)
qed

lemma spawns_attempts:
  "length (filter is_Spawn (concat (map (\<lambda>i. attempt_steps cfg p env (att + int i)) [0..<n]))) = n"
proof (induction n arbitrary: att)
  case 0
  then show ?case by simp
next
  case (Suc n)
  have "length (filter is_Spawn (attempt_steps cfg p env att)) = 1"
    by (simp add: attempt_steps_def)
  with Suc.IH[of "att + 1"] show ?case
    by (simp only: concat_steps_Suc filter_append length_append)
qed

lemma callAgent_first_success:
  assumes "\<not> cancelled w"
    and "0 \<le> nullish_default (opt_retries opts) (expertRetries (retry cfg))"
    and "callAgentOnce rt a p (nullish_default (opt_timeout opts) (timeouts_expert (timeouts cfg))) 0
           (env_child (env 0)) (env_events (env 0)) w = (Inr r0, w1)"
    and "success r0"
  shows "callAgent rt a p cfg opts env w = (Inr (r0\<lparr>duration := Some (env_elapsed (env 0))\<rparr>), w1)"
proof -
  let ?tmo = "nullish_default (opt_timeout opts) (timeouts_expert (timeouts cfg))"
  let ?m = "nullish_default (opt_retries opts) (expertRetries (retry cfg)) + 1"
  let ?ch = "case opt_isChair opts of None \<Rightarrow> False | Some b \<Rightarrow> b"
  have c: "callAgent rt a p cfg opts env w = callAgent_loop rt a p cfg ?tmo ?m ?ch env 0 None w"
    by (simp add: callAgent_def Let_def nullish_default_def)
  have lt: "(0::int) < ?m" using assms(2) by simp
  have b: "before_attempt cfg env 0 w = w" by (simp add: before_attempt_def)
  from lt assms(1) show ?thesis
  proof (cases rule: loop_step_cases[where rt=rt and a=a and p=p and t="?tmo" and env=env and cfg=cfg and ch="?ch" and le=None])
    case (crash e w2)
    with assms(3) b show ?thesis by simp
  next
    case (succeeded r w2)
    with assms(3) b c show ?thesis by simp
  next
    case (hook_throws r w2 h e)
    with assms(3,4) b show ?thesis by simp
  next
    case (continue r w2 w3)
    with assms(3,4) b show ?thesis by simp
  qed
qed

text \<open>
  Claim C2. A call with \<open>retries = r\<close> starts at most \<open>r + 1\<close> processes; its trace is
  sequential, no process being started while the launch of the previous one is open;
  and when the first launch succeeds, its outcome (with the measured duration) is the
  result of the call and exactly one process was started.
\<close>

theorem retry_attempts_bounded:
  assumes "nullish_default (opt_retries opts) (expertRetries (retry cfg)) = r"
  shows "length (filter is_Spawn (effects_since w (snd (callAgent rt a p cfg opts env w)))) \<le> nat (r + 1) \<and>
         sequential None (effects_since w (snd (callAgent rt a p cfg opts env w))) \<and>
         (\<forall>r0 w1.
            \<not> cancelled w \<and> 0 \<le> r \<and> success r0 \<and>
            callAgentOnce rt a p (nullish_default (opt_timeout opts) (timeouts_expert (timeouts cfg))) 0
              (env_child (env 0)) (env_events (env 0)) w = (Inr r0, w1) \<longrightarrow>
            callAgent rt a p cfg opts env w = (Inr (r0\<lparr>duration := Some (env_elapsed (env 0))\<rparr>), w1) \<and>
            length (filter is_Spawn (effects_since w w1)) = 1)"
proof -
  obtain n es rest where n: "n \<le> nat (r + 1)"
    and es: "effects (snd (callAgent rt a p cfg opts env w)) = effects w @ es"
    and rest: "rest = [] \<or> (\<exists>c. rest = [Settle c])"
    and st: "steps_only (es @ rest) = concat (map (\<lambda>i. attempt_steps cfg p env (0 + int i)) [0..<n])"
    using callAgent_effects[of opts cfg rt a p env w] assms by auto
  have since: "effects_since w (snd (callAgent rt a p cfg opts env w)) = es"
    using es by (rule effects_since_append)
  have "length (filter is_Spawn es) = length (filter is_Spawn (es @ rest))"
    using filter_open_spawn[OF rest] by simp
  also have "\<dots> = length (filter is_Spawn (steps_only (es @ rest)))"
    by (subst filter_steps_only) (auto elim: is_Spawn.elims)
  also have "\<dots> = n" unfolding st by (rule spawns_attempts)
  finally have count: "length (filter is_Spawn es) \<le> nat (r + 1)" using n by simp
  have "sequential None (steps_only (es @ rest))" unfolding st by (rule sequential_attempts)
  then have "sequential None (es @ rest)" by (simp add: sequential_steps_only)
  then have seq: "sequential None es" by (rule sequential_prefix)
  have first: "callAgent rt a p cfg opts env w = (Inr (r0\<lparr>duration := Some (env_elapsed (env 0))\<rparr>), w1) \<and>
            length (filter is_Spawn (effects_since w w1)) = 1"
    if h: "\<not> cancelled w \<and> 0 \<le> r \<and> success r0 \<and>
            callAgentOnce rt a p (nullish_default (opt_timeout opts) (timeouts_expert (timeouts cfg))) 0
              (env_child (env 0)) (env_events (env 0)) w = (Inr r0, w1)" for r0 w1
  proof -
    from h assms have res: "callAgent rt a p cfg opts env w = (Inr (r0\<lparr>duration := Some (env_elapsed (env 0))\<rparr>), w1)"
      by (intro callAgent_first_success) simp_all
    obtain ks where ks: "effects w1 = effects w @ [Spawn (env_child (env 0)) 0 p] @ ks @ [Settle (env_child (env 0))]"
      "list_all is_Kill ks"
      using callAgentOnce_effects[of rt a p "nullish_default (opt_timeout opts) (timeouts_expert (timeouts cfg))" 0
          "env_child (env 0)" "env_events (env 0)" w] h by auto
    have "filter is_Spawn ks = []" using ks(2) by (induction ks) (auto elim: is_Kill.elims)
    then have "length (filter is_Spawn (effects_since w w1)) = 1"
      using effects_since_append[OF ks(1)] by simp
    with res show ?thesis by simp
  qed
  from first have every: "\<forall>r0 w1.
            \<not> cancelled w \<and> 0 \<le> r \<and> success r0 \<and>
            callAgentOnce rt a p (nullish_default (opt_timeout opts) (timeouts_expert (timeouts cfg))) 0
              (env_child (env 0)) (env_events (env 0)) w = (Inr r0, w1) \<longrightarrow>
            callAgent rt a p cfg opts env w = (Inr (r0\<lparr>duration := Some (env_elapsed (env 0))\<rparr>), w1) \<and>
            length (filter is_Spawn (effects_since w w1)) = 1"
    by blast
  show ?thesis unfolding since by (intro conjI count seq every)
qed

theorem retry_attempts_bounded_witness:
  "nullish_default (opt_retries \<lparr>opt_timeout = Some 300000, opt_retries = Some 1, opt_isChair = Some False\<rparr>)
     (expertRetries (retry DEFAULT_CONFIG)) = 1 \<and>
   \<not> cancelled idle_world \<and> (0::int) \<le> 1 \<and> success (success_result (asc ''arch'') (asc ''AB'') 0) \<and>
   fst (callAgentOnce plain_runtime (asc ''arch'') (asc ''task'') 300000 0 1
          [StdoutData sample_stream, Close] idle_world) = Inr (success_result (asc ''arch'') (asc ''AB'') 0) \<and>
   fst (callAgent plain_runtime (asc ''arch'') (asc ''task'') DEFAULT_CONFIG
          \<lparr>opt_timeout = Some 300000, opt_retries = Some 1, opt_isChair = Some False\<rparr>
          (\<lambda>k. answering) idle_world) =
     Inr ((success_result (asc ''arch'') (asc ''AB'') 0)\<lparr>duration := Some 40\<rparr>) \<and>
   length (filter is_Spawn (effects_since idle_world
     (snd (callAgent plain_runtime (asc ''arch'') (asc ''task'') DEFAULT_CONFIG
          \<lparr>opt_timeout = Some 300000, opt_retries = Some 1, opt_isChair = Some False\<rparr>
          (\<lambda>k. answering) idle_world)))) = 1"
proof -
  let ?opts = "\<lparr>opt_timeout = Some 300000, opt_retries = Some 1, opt_isChair = Some False\<rparr>"
  obtain w1 where e: "callAgentOnce plain_runtime (asc ''arch'') (asc ''task'') 300000 0 1
          [StdoutData sample_stream, Close] idle_world = (Inr (success_result (asc ''arch'') (asc ''AB'') 0), w1)"
    using answering_once by (metis prod.collapse)
  have r: "nullish_default (opt_retries ?opts) (expertRetries (retry DEFAULT_CONFIG)) = 1"
    by (simp add: nullish_default_def)
  have h: "\<not> cancelled idle_world \<and> (0::int) \<le> 1 \<and> success (success_result (asc ''arch'') (asc ''AB'') 0) \<and>
     callAgentOnce plain_runtime (asc ''arch'') (asc ''task'')
       (nullish_default (opt_timeout ?opts) (timeouts_expert (timeouts DEFAULT_CONFIG))) 0
       (env_child ((\<lambda>k. answering) 0)) (env_events ((\<lambda>k. answering) 0)) idle_world =
       (Inr (success_result (asc ''arch'') (asc ''AB'') 0), w1)"
    using e by (simp add: idle_world_def success_result_def nullish_default_def answering_def)
  from retry_attempts_bounded[OF r, of idle_world plain_runtime "asc ''arch''" "asc ''task''" "\<lambda>k. answering"] h
  have "callAgent plain_runtime (asc ''arch'') (asc ''task'') DEFAULT_CONFIG ?opts (\<lambda>k. answering) idle_world =
      (Inr ((success_result (asc ''arch'') (asc ''AB'') 0)\<lparr>duration := Some (env_elapsed answering)\<rparr>), w1) \<and>
      length (filter is_Spawn (effects_since idle_world w1)) = 1"
    by blast
  then show ?thesis using r h answering_once by (simp add: answering_def)
qed

lemma filter_attempt_steps:
  "filter is_Sleep_or_Spawn (attempt_steps cfg p env (int k)) =
     (if k = 0 then []
      else [Sleep (if exponentialBackoff (retry cfg) then delay (retry cfg) * 2 ^ (k - 1)
                   else delay (retry cfg))]) @
     [Spawn (env_child (env (int k))) (int k) p]"
proof (cases "k = 0")
  case True
  then show ?thesis by (simp add: attempt_steps_def)
next
  case False
  then have "nat (int k - 1) = k - 1" by simp
  with False show ?thesis by (simp add: attempt_steps_def calculateRetryDelay_def)
qed

text \<open>
  Claim C3. The sleeps and spawns of a call follow each other as: the spawn of attempt
  \<open>0\<close> with no sleep before it, then for each further attempt \<open>k\<close> one sleep of
  \<open>delay * 2 ^ (k - 1)\<close> milliseconds with exponential backoff, of \<open>delay\<close> without,
  followed by the spawn of attempt \<open>k\<close>.
\<close>

theorem retry_delays:
  "\<exists>n. filter is_Sleep_or_Spawn (effects_since w (snd (callAgent rt a p cfg opts env w))) =
     concat (map (\<lambda>k.
         (if k = 0 then []
          else [Sleep (if exponentialBackoff (retry cfg) then delay (retry cfg) * 2 ^ (k - 1)
                       else delay (retry cfg))]) @
         [Spawn (env_child (env (int k))) (int k) p]) [0..<n])"
proof -
  obtain n es rest where es: "effects (snd (callAgent rt a p cfg opts env w)) = effects w @ es"
    and rest: "rest = [] \<or> (\<exists>c. rest = [Settle c])"
    and st: "steps_only (es @ rest) = concat (map (\<lambda>i. attempt_steps cfg p env (int i)) [0..<n])"
    using callAgent_effects[of opts cfg rt a p env w] by auto
  have since: "effects_since w (snd (callAgent rt a p cfg opts env w)) = es"
    using es by (rule effects_since_append)
  have "filter is_Sleep_or_Spawn es = filter is_Sleep_or_Spawn (es @ rest)"
    using filter_open_launch[OF rest] by simp
  also have "\<dots> = filter is_Sleep_or_Spawn (steps_only (es @ rest))"
    by (subst filter_steps_only) (auto elim: is_Sleep_or_Spawn.elims)
  also have "\<dots> = concat (map (\<lambda>i. filter is_Sleep_or_Spawn (attempt_steps cfg p env (int i))) [0..<n])"
    unfolding st by (simp add: filter_concat comp_def)
  finally show ?thesis unfolding since filter_attempt_steps by (rule exI)
qed

text \<open>
  Claim C4. When the flag is set at the top of an iteration of the loop, the call
  returns at once a failure classified \<open>TIMEOUT\<close> that carries the index of the
  iteration; the world it returns is the world it found, so nothing was slept on and
  nothing was spawned.
\<close>

theorem cancellation_stops_retry:
  assumes "att < maxAttempts" and "cancelled w"
  shows "\<exists>r. callAgent_loop rt a p cfg t maxAttempts ch env att le w = (Inr r, w) \<and>
             \<not> success r \<and> errorCode r = Some TIMEOUT \<and> attempt r = Some att"
  using loop_cancel[OF assms, of rt a p cfg t ch env le]
  by (simp add: cancelled_result_def)

theorem cancellation_stops_retry_witness:
  "(1::int) < 2 \<and> cancelled (cancel idle_world) \<and>
   (\<exists>r. callAgent_loop plain_runtime (asc ''arch'') (asc ''task'') DEFAULT_CONFIG 300000 2 False
           (\<lambda>k. answering) 1 None (cancel idle_world) = (Inr r, cancel idle_world) \<and>
         \<not> success r \<and> errorCode r = Some TIMEOUT \<and> attempt r = Some 1)"
proof -
  have a: "(1::int) < 2" by simp
  have b: "cancelled (cancel idle_world)" by (simp add: cancel_def)
  from cancellation_stops_retry[OF a b] a b show ?thesis by blast
qed

text \<open>Two runs of the model: three attempts that answer nothing, and a cancellation that
  arrives while the first attempt is in flight.\<close>

lemma silent_once:
  "callAgentOnce rt a p t k c [StderrData (asc ''boom''), Close] w =
     (Inr (empty_result a (asc ''boom'') k),
      w\<lparr>activeProcesses := set_delete c (set_add c (activeProcesses w)),
        effects := effects w @ [Spawn c k p, Settle c]\<rparr>)"
  by (simp add: callAgentOnce_def on_close_def on_timeout_def finished_def decode_nothing Let_def)

lemma two_silent_attempts:
  "callAgent rt (asc ''arch'') (asc ''task'') DEFAULT_CONFIG
     \<lparr>opt_timeout = Some 300000, opt_retries = Some 2, opt_isChair = Some False\<rparr>
     (\<lambda>k. silent) idle_world =
   (Inr (empty_result (asc ''arch'') (asc ''boom'') 2),
    \<lparr>cancelled = False, activeProcesses = [],
     effects = [Spawn 2 0 (asc ''task''), Settle 2, Sleep 1000, Spawn 2 1 (asc ''task''), Settle 2,
                Sleep 2000, Spawn 2 2 (asc ''task''), Settle 2]\<rparr>)"
  by (simp add: callAgent_def callAgent_loop.simps silent_once silent_def idle_world_def
      DEFAULT_CONFIG_def error_hook_def backoff_sleep_def calculateRetryDelay_def ext_run_def
      empty_result_def set_add_def set_delete_def Let_def)

lemma cancel_between_attempts:
  "callAgent rt (asc ''arch'') (asc ''task'') DEFAULT_CONFIG
     \<lparr>opt_timeout = Some 300000, opt_retries = Some 2, opt_isChair = Some False\<rparr>
     (\<lambda>k. silent\<lparr>env_events := [StderrData (asc ''boom''), External CallCancel, Close]\<rparr>) idle_world =
   (Inr (cancelled_result (asc ''arch'') 1),
    \<lparr>cancelled = True, activeProcesses = [],
     effects = [Spawn 2 0 (asc ''task''), Kill 2, Settle 2]\<rparr>)"
  by (simp add: callAgent_def callAgent_loop.simps callAgentOnce_def on_close_def on_timeout_def
      finished_def decode_nothing silent_def idle_world_def cancel_def
      DEFAULT_CONFIG_def error_hook_def backoff_sleep_def calculateRetryDelay_def ext_run_def
      empty_result_def set_add_def set_delete_def Let_def)

section \<open>The round and the status of an instance\<close>

lemma run_not_idle:
  "status inst \<noteq> Idle \<Longrightarrow>
   \<exists>msg. run rt task opts renv (inst, w) = (Threw (Error msg), inst, w)"
  by (simp add: run_def)

lemma run_complete_status:
  "run_complete opts hks renv rs c (inst, w) = (x, inst', w') \<Longrightarrow> status inst' = Completed"
  by (auto simp: run_complete_def Let_def split: option.splits prod.splits)

lemma run_chair_status:
  "run_chair rt task opts hks renv rs (inst, w) = (x, inst', w') \<Longrightarrow>
   status inst' \<in> {Running_chair, Cancelled, Completed}"
  by (auto simp: run_chair_def Let_def split: prod.splits sum.splits failure.splits if_splits
      dest: run_complete_status)

lemma run_try_status:
  "run_try rt task opts hks renv (inst, w) = (x, inst', w') \<Longrightarrow>
   status inst' \<in> {status inst, Running_chair, Cancelled, Completed}"
  by (auto simp: run_try_def split: prod.splits completion.splits if_splits dest: run_chair_status)

lemma run_catch_status:
  "run_catch hks renv e (inst, w) = (x, inst', w') \<Longrightarrow> status inst' = Failed"
  by (auto simp: run_catch_def Let_def split: prod.splits option.splits)

lemma run_status_not_idle:
  assumes "run rt task opts renv (inst, w) = (x, inst', w')"
  shows "status inst' \<noteq> Idle"
proof (cases "status inst = Idle")
  case False
  with assms show ?thesis by (simp add: run_def)
next
  case True
  obtain inst1 w2 where rs: "round_start renv (inst, w) = (inst1, w2)" by (cases "round_start renv (inst, w)")
  then have s1: "status inst1 = Running_experts" by (auto simp: round_start_def)
  show ?thesis
  proof (cases "env_available renv")
    case False
    with True rs s1 assms show ?thesis by (auto simp: run_def)
  next
    case True
    let ?hks = "mergeHooks (hooks (config inst1)) (ro_hooks opts)"
    obtain y inst2 w3 where t: "run_try rt task opts ?hks renv (inst1, w2) = (y, inst2, w3)"
      by (cases "run_try rt task opts ?hks renv (inst1, w2)")
    from run_try_status[OF t] s1 have s2: "status inst2 \<noteq> Idle" by auto
    show ?thesis
    proof (cases y)
      case (Threw e)
      with assms \<open>status inst = Idle\<close> rs True t
      have "run_catch ?hks renv e (inst2, w3) = (x, inst', w')" by (simp add: run_def Let_def)
      from run_catch_status[OF this] show ?thesis by simp
    next
      case Pending
      with assms \<open>status inst = Idle\<close> rs True t s2 show ?thesis by (auto simp: run_def Let_def)
    next
      case (Returned r)
      with assms \<open>status inst = Idle\<close> rs True t s2 show ?thesis by (auto simp: run_def Let_def)
    qed
  qed
qed

lemma other_operations_keep_status:
  "status (fst (instance_cancel (inst, w))) = status inst"
  "status (use_plugin ph inst) = status inst"
  by (simp_all add: instance_cancel_def use_plugin_def split: option.splits)

text \<open>
  Claim C10 says that every \<open>run\<close> moves the status to \<open>completed\<close>, \<open>failed\<close> or
  \<open>cancelled\<close>. When the command-line tool is missing, \<open>run\<close> throws before the \<open>try\<close>
  block, after the status was set to \<open>running_experts\<close>, and the status stays there;
  an error thrown inside the \<open>try\<close> block sets \<open>failed\<close>. The rest of the claim holds:
  see \<open>run_not_idle\<close>, \<open>run_status_not_idle\<close> and \<open>other_operations_keep_status\<close>.
\<close>

theorem unavailable_leaves_running:
  "(case run plain_runtime (asc ''task'') no_options unavailable (fresh_instance, idle_world) of
      (x, inst', w') \<Rightarrow>
        (\<exists>msg. x = Threw (Error msg)) \<and> status inst' = Running_experts \<and>
        status inst' \<notin> {Completed, Failed, Cancelled})"
  by (simp add: run_def round_start_def fresh_instance_def unavailable_def)

text \<open>
  Claim C5. When the expert phase of a round has settled and the flag is then found
  set, \<open>run\<close> returns (it neither throws nor stays pending) a result with
  \<open>success = false\<close> and the metadata \<open>cancelled: true\<close>, and the status of the
  instance is \<open>cancelled\<close>.
\<close>

theorem cancelled_round_returns:
  assumes "status inst = Idle" and "env_available renv"
    and "run_experts rt task opts (mergeHooks (hooks (config inst)) (ro_hooks opts)) renv
           (round_start renv (inst, w)) = (Returned expertResults, w2)"
    and "isCancelled w2"
  shows "\<exists>res inst'. run rt task opts renv (inst, w) = (Returned res, inst', w2) \<and>
           \<not> result_success res \<and>
           metadata res = Some [(asc ''cancelled'', JBool True)] \<and>
           result_experts res = expertResults \<and>
           status inst' = Cancelled"
  using assms
  by (auto simp: run_def run_try_def round_start_def Let_def createCancelledResult_def)

lemma interrupted_call:
  "callAgent rt a p DEFAULT_CONFIG
     \<lparr>opt_timeout = Some 300000, opt_retries = Some 1, opt_isChair = Some False\<rparr>
     (\<lambda>k. silent\<lparr>env_events := [External CallCancel, Close]\<rparr>)
     \<lparr>cancelled = False, activeProcesses = [], effects = []\<rparr> =
   (Inr (cancelled_result a 1),
    \<lparr>cancelled = True, activeProcesses = [], effects = [Spawn 2 0 p, Kill 2, Settle 2]\<rparr>)"
  by (simp add: callAgent_def callAgent_loop.simps callAgentOnce_def on_close_def on_timeout_def
      finished_def decode_nothing silent_def cancel_def
      DEFAULT_CONFIG_def error_hook_def empty_result_def set_add_def set_delete_def Let_def)

lemma default_prompt_own:
  "default_prompt rt (asc ''arch'') task = Inr (DEFAULT_EXPERT_PROMPTS (asc ''arch'') task)"
  "default_prompt rt (asc ''ux'') task = Inr (DEFAULT_EXPERT_PROMPTS (asc ''ux'') task)"
  by (simp_all add: default_prompt_def object_prototype_functions_def asc_def)

lemma interrupted_experts:
  "run_experts plain_runtime (asc ''T'') no_options
     (mergeHooks (hooks (config solo_instance)) (ro_hooks no_options)) interrupted
     (round_start interrupted (solo_instance, idle_world)) =
   (Returned [cancelled_result (asc ''arch'') 1],
    \<lparr>cancelled = True, activeProcesses = [],
     effects = [Spawn 2 0 (DEFAULT_EXPERT_PROMPTS (asc ''arch'') (asc ''T'')), Kill 2, Settle 2]\<rparr>)"
proof -
  let ?arch = "\<lparr>name = asc ''arch'', prompt = None, timeout = None, retries = None, enabled = Some True\<rparr>"
  let ?cfg = "config solo_instance"
  have sel: "select_experts ?cfg no_options = [?arch]"
    by (simp add: solo_instance_def select_experts_def no_options_def)
  have hk: "hooks ?cfg = None"
    by (simp add: solo_instance_def DEFAULT_CONFIG_def)
  have call: "callAgent plain_runtime (asc ''arch'') (DEFAULT_EXPERT_PROMPTS (asc ''arch'') (asc ''T''))
     ?cfg \<lparr>opt_timeout = Some 300000, opt_retries = Some 1, opt_isChair = Some False\<rparr>
     (\<lambda>k. silent\<lparr>env_events := [External CallCancel, Close]\<rparr>)
     \<lparr>cancelled = False, activeProcesses = [], effects = []\<rparr> =
   (Inr (cancelled_result (asc ''arch'') 1),
    \<lparr>cancelled = True, activeProcesses = [],
     effects = [Spawn 2 0 (DEFAULT_EXPERT_PROMPTS (asc ''arch'') (asc ''T'')), Kill 2, Settle 2]\<rparr>)"
    by (simp add: callAgent_def callAgent_loop.simps callAgentOnce_def on_close_def on_timeout_def
      finished_def decode_nothing silent_def cancel_def solo_instance_def
      DEFAULT_CONFIG_def error_hook_def empty_result_def set_add_def set_delete_def Let_def)
  have branch: "expert_branch plain_runtime ?arch (asc ''T'') ?cfg
      interrupted_task \<lparr>cancelled = False, activeProcesses = [], effects = []\<rparr> =
   (Inr (cancelled_result (asc ''arch'') 1),
    \<lparr>cancelled = True, activeProcesses = [],
     effects = [Spawn 2 0 (DEFAULT_EXPERT_PROMPTS (asc ''arch'') (asc ''T'')), Kill 2, Settle 2]\<rparr>)"
  proof -
    have t: "or_default (timeout ?arch) (timeouts_expert (timeouts ?cfg)) = 300000"
      "nullish_default (retries ?arch) (expertRetries (retry ?cfg)) = 1"
      by (simp_all add: or_default_def nullish_default_def solo_instance_def DEFAULT_CONFIG_def)
    show ?thesis
      unfolding expert_branch_def t
      by (simp add: buildPrompt_def default_prompt_own await_hook_def hook_of_def hk
          interrupted_task_def call)
  qed
  have par: "callExpertsParallel plain_runtime [?arch] (asc ''T'') ?cfg (\<lambda>i. interrupted_task)
      \<lparr>cancelled = False, activeProcesses = [], effects = []\<rparr> =
    (Some (Inr [cancelled_result (asc ''arch'') 1]),
     \<lparr>cancelled = True, activeProcesses = [],
     effects = [Spawn 2 0 (DEFAULT_EXPERT_PROMPTS (asc ''arch'') (asc ''T'')), Kill 2, Settle 2]\<rparr>)"
    by (simp add: callExpertsParallel_def enabled_experts_def completion_order_def
        Promise_all_def deciding_branch_def effects_since_def branch Let_def)
  show ?thesis
    by (simp add: run_experts_def round_start_def interrupted_def idle_world_def
        await_hook_def mergeHooks_def no_hooks_def over_def hk no_options_def
        resetCancel_def ext_run_def sel[unfolded no_options_def] par Let_def)
qed

theorem cancelled_round_returns_witness:
  "status solo_instance = Idle \<and> env_available interrupted \<and>
   (\<exists>rs w2.
      run_experts plain_runtime (asc ''T'') no_options
        (mergeHooks (hooks (config solo_instance)) (ro_hooks no_options)) interrupted
        (round_start interrupted (solo_instance, idle_world)) = (Returned rs, w2) \<and>
      isCancelled w2 \<and>
      (\<exists>res inst'. run plain_runtime (asc ''T'') no_options interrupted (solo_instance, idle_world) =
          (Returned res, inst', w2) \<and>
        \<not> result_success res \<and> metadata res = Some [(asc ''cancelled'', JBool True)] \<and>
        result_experts res = rs \<and> status inst' = Cancelled))"
proof -
  let ?w2 = "\<lparr>cancelled = True, activeProcesses = [],
     effects = [Spawn 2 0 (DEFAULT_EXPERT_PROMPTS (asc ''arch'') (asc ''T'')), Kill 2, Settle 2]\<rparr>"
  have a: "status solo_instance = Idle" by (simp add: solo_instance_def)
  have b: "env_available interrupted" by (simp add: interrupted_def)
  have c: "isCancelled ?w2" by (simp add: isCancelled_def)
  from cancelled_round_returns[OF a b interrupted_experts c] a b c interrupted_experts
  show ?thesis by blast
qed

section \<open>The default chair prompt\<close>

lemma str_includes_iff: "str_includes s t \<longleftrightarrow> (\<exists>pre post. s = pre @ t @ post)"
proof (induction s)
  case Nil
  then show ?case by simp
next
  case (Cons c cs)
  show ?case
  proof
    assume "str_includes (c # cs) t"
    then consider "take (length t) (c # cs) = t" | "str_includes cs t" by auto
    then show "\<exists>pre post. c # cs = pre @ t @ post"
    proof cases
      case 1
      then have "c # cs = [] @ t @ drop (length t) (c # cs)"
        by (metis append_Nil append_take_drop_id)
      then show ?thesis by blast
    next
      case 2
      with Cons.IH obtain pre post where "cs = pre @ t @ post" by blast
      then have "c # cs = (c # pre) @ t @ post" by simp
      then show ?thesis by blast
    qed
  next
    assume "\<exists>pre post. c # cs = pre @ t @ post"
    then obtain pre post where e: "c # cs = pre @ t @ post" by blast
    show "str_includes (c # cs) t"
    proof (cases pre)
      case Nil
      with e have "take (length t) (c # cs) = t" by simp
      then show ?thesis by simp
    next
      case (Cons x pre')
      with e have "cs = pre' @ t @ post" by simp
      with Cons.IH have "str_includes cs t" by blast
      then show ?thesis by simp
    qed
  qed
qed

lemma str_includes_unit: "str_includes s [c] \<longleftrightarrow> c \<in> set s"
  by (induction s) auto

lemma str_includes_middle: "str_includes (pre @ t @ post) t"
  by (auto simp: str_includes_iff)

lemma concat_sections:
  assumes "r \<in> set rs"
  shows "\<exists>pre post. concat (map (expert_section rt) rs) = pre @ expert_section rt r @ post"
proof -
  from assms obtain xs ys where "rs = xs @ r # ys" by (meson split_list)
  then have "concat (map (expert_section rt) rs) =
      concat (map (expert_section rt) xs) @ expert_section rt r @ concat (map (expert_section rt) ys)"
    by simp
  then show ?thesis by blast
qed

lemma template_includes_section:
  assumes "r \<in> set rs"
  shows "str_includes (DEFAULT_CHAIR_PROMPT_TEMPLATE rt task rs) (expert_section rt r)"
proof -
  from concat_sections[OF assms] obtain pre post where
    "concat (map (expert_section rt) rs) = pre @ expert_section rt r @ post" by blast
  then have "\<exists>pre' post'. DEFAULT_CHAIR_PROMPT_TEMPLATE rt task rs = pre' @ expert_section rt r @ post'"
    unfolding DEFAULT_CHAIR_PROMPT_TEMPLATE_def
    by (metis append.assoc)
  then show ?thesis by (simp add: str_includes_iff)
qed

lemma str_includes_trans: "str_includes s t \<Longrightarrow> str_includes t u \<Longrightarrow> str_includes s u"
  unfolding str_includes_iff by (metis append.assoc)

lemma section_includes:
  "str_includes (expert_section rt r) (string_toUpperCase rt (agent r))"
  "str_includes (expert_section rt r) (substring0 (text r) 3000)"
proof -
  have "expert_section rt r =
      asc ''### '' @ string_toUpperCase rt (agent r) @ ([0x0A] @ substring0 (text r) 3000 @ [0x0A, 0x0A])"
    by (simp add: expert_section_def Let_def)
  then show "str_includes (expert_section rt r) (string_toUpperCase rt (agent r))"
    by (metis str_includes_middle)
  have "expert_section rt r =
      (asc ''### '' @ string_toUpperCase rt (agent r) @ [0x0A]) @ substring0 (text r) 3000 @ [0x0A, 0x0A]"
    by (simp add: expert_section_def Let_def)
  then show "str_includes (expert_section rt r) (substring0 (text r) 3000)"
    by (metis str_includes_middle)
qed

lemma default_chair_prompt:
  assumes "promptTemplate (chair cfg) = None \<or>
           promptTemplate (chair cfg) = Some DEFAULT_CHAIR_PROMPT_TEMPLATE"
  shows "chair_prompt rt cfg task rs = DEFAULT_CHAIR_PROMPT_TEMPLATE rt task rs"
  using assms by (auto simp: chair_prompt_def)

text \<open>
  Claim C8, amended. With no custom template, the slot of the template being empty or
  holding the default template as in the default configuration, and with the maximum
  length of the default configuration, \<open>3000\<close>, the chair prompt contains for every
  outcome one section: a heading with the identity as \<open>toUpperCase\<close> of the language
  gives it, and below it the text cut to its first \<open>3000\<close> code units.
\<close>

theorem default_chair_prompt_contains:
  assumes "promptTemplate (chair cfg) = None \<or>
           promptTemplate (chair cfg) = Some DEFAULT_CHAIR_PROMPT_TEMPLATE"
    and "maxExpertTextLength (chair cfg) = Some 3000"
    and "r \<in> set expertResults"
  shows "str_includes (chair_prompt rt cfg task expertResults)
           (asc ''### '' @ string_toUpperCase rt (agent r) @ [0x0A] @
            substring0 (text r) 3000 @ [0x0A, 0x0A]) \<and>
         str_includes (chair_prompt rt cfg task expertResults) (string_toUpperCase rt (agent r)) \<and>
         str_includes (chair_prompt rt cfg task expertResults) (substring0 (text r) 3000)"
proof -
  have p: "chair_prompt rt cfg task expertResults = DEFAULT_CHAIR_PROMPT_TEMPLATE rt task expertResults"
    using assms(1) by (rule default_chair_prompt)
  have s: "str_includes (chair_prompt rt cfg task expertResults) (expert_section rt r)"
    unfolding p using assms(3) by (rule template_includes_section)
  have e: "expert_section rt r =
      asc ''### '' @ string_toUpperCase rt (agent r) @ [0x0A] @ substring0 (text r) 3000 @ [0x0A, 0x0A]"
    by (simp add: expert_section_def Let_def)
  from s section_includes[of rt r] e show ?thesis
    by (auto intro: str_includes_trans)
qed

theorem default_chair_prompt_contains_witness:
  "(promptTemplate (chair DEFAULT_CONFIG) = None \<or>
    promptTemplate (chair DEFAULT_CONFIG) = Some DEFAULT_CHAIR_PROMPT_TEMPLATE) \<and>
   maxExpertTextLength (chair DEFAULT_CONFIG) = Some 3000 \<and>
   outcome_b \<in> set [outcome_a, outcome_b] \<and>
   str_includes (chair_prompt plain_runtime DEFAULT_CONFIG (asc ''T'') [outcome_a, outcome_b])
     (asc ''### B'' @ [0x0A] @ asc ''Y'' @ [0x0A, 0x0A]) \<and>
   str_includes (chair_prompt plain_runtime DEFAULT_CONFIG (asc ''T'') [outcome_a, outcome_b]) (asc ''B'') \<and>
   str_includes (chair_prompt plain_runtime DEFAULT_CONFIG (asc ''T'') [outcome_a, outcome_b]) (asc ''Y'')"
proof -
  have a: "promptTemplate (chair DEFAULT_CONFIG) = None \<or>
    promptTemplate (chair DEFAULT_CONFIG) = Some DEFAULT_CHAIR_PROMPT_TEMPLATE"
    by (simp add: DEFAULT_CONFIG_def DEFAULT_CHAIR_def)
  have m: "maxExpertTextLength (chair DEFAULT_CONFIG) = Some 3000"
    by (simp add: DEFAULT_CONFIG_def DEFAULT_CHAIR_def)
  have c: "outcome_b \<in> set [outcome_a, outcome_b]" by simp
  have u: "string_toUpperCase plain_runtime (agent outcome_b) = asc ''B''"
    by (simp add: outcome_b_def plain_runtime_def ascii_toUpperCase_def upper_unit_def asc_def)
  have t: "substring0 (text outcome_b) 3000 = asc ''Y''"
    by (simp add: outcome_b_def substring0_def asc_def)
  from default_chair_prompt_contains[OF a m c, of plain_runtime "asc ''T''"]
  have "str_includes (chair_prompt plain_runtime DEFAULT_CONFIG (asc ''T'') [outcome_a, outcome_b])
           (asc ''### '' @ asc ''B'' @ [0x0A] @ asc ''Y'' @ [0x0A, 0x0A]) \<and>
         str_includes (chair_prompt plain_runtime DEFAULT_CONFIG (asc ''T'') [outcome_a, outcome_b]) (asc ''B'') \<and>
         str_includes (chair_prompt plain_runtime DEFAULT_CONFIG (asc ''T'') [outcome_a, outcome_b]) (asc ''Y'')"
    unfolding u t .
  moreover have "asc ''### '' @ asc ''B'' = asc ''### B''" by (simp add: asc_def)
  ultimately show ?thesis using a m c by (simp del: append_assoc flip: append_assoc)
qed

lemma short_limit_prompt:
  "chair_prompt plain_runtime short_limit_config (asc ''T'')
     [outcome_a\<lparr>text := asc ''XYZ''\<rparr>, outcome_b] =
   DEFAULT_CHAIR_PROMPT_TEMPLATE plain_runtime (asc ''T'') [outcome_a\<lparr>text := asc ''XYZ''\<rparr>, outcome_b]"
  by (rule default_chair_prompt) (simp add: short_limit_config_def DEFAULT_CHAIR_def)

text \<open>
  Claim C8, as stated, fails on the default template: for the outcomes named \<open>a\<close> and
  \<open>b\<close> the prompt holds the identities in upper case only, so \<open>a\<close> does not occur in
  it; and with a configured maximum length of \<open>2\<close> the text \<open>XYZ\<close>, three code units
  long, is included whole.
\<close>

theorem default_chair_prompt_counterexample:
  "promptTemplate (chair short_limit_config) = Some DEFAULT_CHAIR_PROMPT_TEMPLATE \<and>
   maxExpertTextLength (chair short_limit_config) = Some 2 \<and>
   \<not> str_includes (chair_prompt plain_runtime short_limit_config (asc ''T'')
         [outcome_a\<lparr>text := asc ''XYZ''\<rparr>, outcome_b]) (asc ''a'') \<and>
   str_includes (chair_prompt plain_runtime short_limit_config (asc ''T'')
         [outcome_a\<lparr>text := asc ''XYZ''\<rparr>, outcome_b]) (asc ''XYZ'') \<and>
   length (asc ''XYZ'') = 3"
proof -
  have a: "\<not> str_includes (DEFAULT_CHAIR_PROMPT_TEMPLATE plain_runtime (asc ''T'')
         [outcome_a\<lparr>text := asc ''XYZ''\<rparr>, outcome_b]) (asc ''a'')"
  proof -
    have "asc ''a'' = [0x61]" by (simp add: asc_def)
    moreover have "0x61 \<notin> set (DEFAULT_CHAIR_PROMPT_TEMPLATE plain_runtime (asc ''T'')
         [outcome_a\<lparr>text := asc ''XYZ''\<rparr>, outcome_b])"
      by (simp add: DEFAULT_CHAIR_PROMPT_TEMPLATE_def expert_section_def outcome_a_def outcome_b_def
          plain_runtime_def ascii_toUpperCase_def upper_unit_def substring0_def asc_def)
    ultimately show ?thesis by (simp add: str_includes_unit)
  qed
  have "str_includes (DEFAULT_CHAIR_PROMPT_TEMPLATE plain_runtime (asc ''T'')
         [outcome_a\<lparr>text := asc ''XYZ''\<rparr>, outcome_b])
         (expert_section plain_runtime (outcome_a\<lparr>text := asc ''XYZ''\<rparr>))"
    by (rule template_includes_section) simp
  moreover have "str_includes (expert_section plain_runtime (outcome_a\<lparr>text := asc ''XYZ''\<rparr>)) (asc ''XYZ'')"
    using section_includes(2)[of plain_runtime "outcome_a\<lparr>text := asc ''XYZ''\<rparr>"]
    by (simp add: substring0_def asc_def)
  ultimately have b: "str_includes (DEFAULT_CHAIR_PROMPT_TEMPLATE plain_runtime (asc ''T'')
         [outcome_a\<lparr>text := asc ''XYZ''\<rparr>, outcome_b]) (asc ''XYZ'')"
    by (rule str_includes_trans)
  show ?thesis
    unfolding short_limit_prompt using a b
    by (simp add: short_limit_config_def DEFAULT_CHAIR_def asc_def)
qed

section \<open>The order of the fan-out\<close>

lemma those_filled:
  "(\<forall>j<length xs. xs ! j = Some (f j)) \<Longrightarrow> those xs = Some (map f [0..<length xs])"
proof (induction xs arbitrary: f)
  case Nil
  then show ?case by simp
next
  case (Cons x xs)
  from Cons.prems[rule_format, of 0] have x: "x = Some (f 0)" by simp
  have "\<forall>j<length xs. xs ! j = Some ((f \<circ> Suc) j)"
  proof (intro allI impI)
    fix j assume "j < length xs"
    with Cons.prems[rule_format, of "Suc j"] show "xs ! j = Some ((f \<circ> Suc) j)" by simp
  qed
  from Cons.IH[OF this] have "those xs = Some (map (f \<circ> Suc) [0..<length xs])" .
  with x show ?case by (simp add: map_upt_Suc del: upt_Suc)
qed

lemma promise_all_run_result:
  assumes "length vals = n" and "distinct rest" and "set rest \<subseteq> {..<n}" and "rest \<noteq> []"
    and "remaining = length rest"
    and "\<forall>j<n. j \<notin> set rest \<longrightarrow> vals ! j = Some (projr (outs j))"
  shows "promise_all_run vals remaining (map (\<lambda>i. (i, outs i)) rest) =
           (case filter (\<lambda>i. isl (outs i)) rest of
              i # _ \<Rightarrow> Some (Inl (projl (outs i)))
            | [] \<Rightarrow> Some (Inr (map (\<lambda>j. projr (outs j)) [0..<n])))"
  using assms
proof (induction rest arbitrary: vals remaining)
  case Nil
  then show ?case by simp
next
  case (Cons i rest)
  show ?case
  proof (cases "outs i")
    case (Inl e)
    then show ?thesis by simp
  next
    case (Inr v)
    let ?vals = "vals[i := Some v]"
    from Cons.prems have i: "i < n" by simp
    have filled: "\<forall>j<n. j \<notin> set rest \<longrightarrow> ?vals ! j = Some (projr (outs j))"
    proof (intro allI impI)
      fix j assume j: "j < n" "j \<notin> set rest"
      show "?vals ! j = Some (projr (outs j))"
      proof (cases "j = i")
        case True
        with i Cons.prems(1) Inr show ?thesis by simp
      next
        case False
        with j Cons.prems(6) show ?thesis by simp
      qed
    qed
    show ?thesis
    proof (cases "rest = []")
      case True
      with filled Cons.prems(1) have "\<forall>j<length ?vals. ?vals ! j = Some (projr (outs j))" by simp
      from those_filled[OF this] Cons.prems(1)
      have "those ?vals = Some (map (\<lambda>j. projr (outs j)) [0..<n])" by simp
      with True Inr Cons.prems(5) show ?thesis by simp
    next
      case False
      have "promise_all_run ?vals (remaining - 1) (map (\<lambda>i. (i, outs i)) rest) =
           (case filter (\<lambda>i. isl (outs i)) rest of
              i # _ \<Rightarrow> Some (Inl (projl (outs i)))
            | [] \<Rightarrow> Some (Inr (map (\<lambda>j. projr (outs j)) [0..<n])))"
        using Cons.prems False filled by (intro Cons.IH) simp_all
      moreover have "remaining - 1 \<noteq> 0" using Cons.prems(5) False by (cases rest) simp_all
      ultimately show ?thesis using Inr by simp
    qed
  qed
qed

lemma Promise_all_result:
  fixes outs :: "nat \<Rightarrow> 'e + 'a"
  assumes "distinct order" and "set order = {..<n}"
  shows "Promise_all n (map (\<lambda>i. (i, outs i)) order) =
           (case filter (\<lambda>i. isl (outs i)) order of
              i # _ \<Rightarrow> Some (Inl (projl (outs i)))
            | [] \<Rightarrow> Some (Inr (map (\<lambda>j. projr (outs j)) [0..<n])))"
proof (cases "n = 0")
  case True
  with assms(2) have "order = []" by simp
  with True show ?thesis by (simp add: Promise_all_def)
next
  case False
  have len: "n = length order" using assms distinct_card[of order] by simp
  have ne: "order \<noteq> []"
  proof
    assume "order = []"
    with len have "n = 0" by simp
    with False show False by simp
  qed
  have sub: "set order \<subseteq> {..<n}" using assms(2) by simp
  have rep: "length (replicate n (None :: 'a option)) = n" by simp
  have out: "\<forall>j<n. j \<notin> set order \<longrightarrow> replicate n None ! j = Some (projr (outs j))"
    using assms(2) by simp
  have "promise_all_run (replicate n None) n (map (\<lambda>i. (i, outs i)) order) =
           (case filter (\<lambda>i. isl (outs i)) order of
              i # _ \<Rightarrow> Some (Inl (projl (outs i)))
            | [] \<Rightarrow> Some (Inr (map (\<lambda>j. projr (outs j)) [0..<n])))"
    by (rule promise_all_run_result[OF rep assms(1) sub ne len out])
  with False show ?thesis by (simp add: Promise_all_def)
qed

lemma completion_order_perm:
  "distinct (completion_order tenvs n)" "set (completion_order tenvs n) = {..<n}"
  by (auto simp: completion_order_def)

lemma callExpertsParallel_result:
  "fst (callExpertsParallel rt exps task cfg tenvs w) =
     (case filter (\<lambda>i. isl (branch_outcome rt exps task cfg tenvs w i))
             (completion_order tenvs (length (enabled_experts exps))) of
        i # _ \<Rightarrow> Some (Inl (projl (branch_outcome rt exps task cfg tenvs w i)))
      | [] \<Rightarrow> Some (Inr (map (\<lambda>j. projr (branch_outcome rt exps task cfg tenvs w j))
                            [0..<length (enabled_experts exps)])))"
proof -
  let ?n = "length (enabled_experts exps)"
  let ?order = "completion_order tenvs ?n"
  let ?branches = "map (\<lambda>i. expert_branch rt (enabled_experts exps ! i) task cfg (tenvs i) w) [0..<?n]"
  have "map (\<lambda>i. (i, fst (?branches ! i))) ?order =
        map (\<lambda>i. (i, branch_outcome rt exps task cfg tenvs w i)) ?order"
  proof (rule map_cong[OF refl])
    fix i assume "i \<in> set ?order"
    then have "i < ?n" by (simp add: completion_order_perm(2))
    then show "(i, fst (?branches ! i)) = (i, branch_outcome rt exps task cfg tenvs w i)"
      by (simp add: branch_outcome_def)
  qed
  then have B: "Promise_all ?n (map (\<lambda>i. (i, fst (?branches ! i))) ?order) =
      Promise_all ?n (map (\<lambda>i. (i, branch_outcome rt exps task cfg tenvs w i)) ?order)"
    by (rule arg_cong)
  have A: "fst (callExpertsParallel rt exps task cfg tenvs w) =
      Promise_all ?n (map (\<lambda>i. (i, fst (?branches ! i))) ?order)"
    by (simp add: callExpertsParallel_def Let_def)
  from A B have "fst (callExpertsParallel rt exps task cfg tenvs w) =
      Promise_all ?n (map (\<lambda>i. (i, branch_outcome rt exps task cfg tenvs w i)) ?order)"
    by (rule trans)
  then show ?thesis
    using Promise_all_result[OF completion_order_perm, where outs="branch_outcome rt exps task cfg tenvs w"
        and n="?n" and tenvs1=tenvs]
    by simp
qed

lemma callAgent_agent:
  assumes "callAgent rt a p cfg opts env w = (Inr r, w')"
  shows "agent r = a"
proof -
  from assms obtain tmo m ch where "callAgent_loop rt a p cfg tmo m ch env 0 None w = (Inr r, w')"
    by (simp add: callAgent_def Let_def)
  from callAgent_loop_ok[OF _ this] show ?thesis by simp
qed

lemma expert_branch_agent:
  assumes "fst (expert_branch rt e task cfg tenv w) = Inr r"
  shows "agent r = name e"
proof (cases "buildPrompt rt e task")
  case (Inl x)
  with assms show ?thesis by (simp add: expert_branch_def)
next
  case bp: (Inr prmpt)
  let ?opts = "\<lparr>opt_timeout = Some (or_default (timeout e) (timeouts_expert (timeouts cfg))),
                opt_retries = Some (nullish_default (retries e) (expertRetries (retry cfg))),
                opt_isChair = Some False\<rparr>"
  obtain h1 w1 where s: "await_hook (hook_of cfg onExpertStart) (name e, task) (env_start_calls tenv) w = (h1, w1)"
    by (cases "await_hook (hook_of cfg onExpertStart) (name e, task) (env_start_calls tenv) w")
  show ?thesis
  proof (cases h1)
    case (Some x)
    with s bp assms show ?thesis by (simp add: expert_branch_def)
  next
    case None
    obtain c w2 where call: "callAgent rt (name e) prmpt cfg ?opts (env_attempts tenv) w1 = (c, w2)"
      by (cases "callAgent rt (name e) prmpt cfg ?opts (env_attempts tenv) w1")
    show ?thesis
    proof (cases c)
      case (Inl x)
      with None s bp call assms show ?thesis by (simp add: expert_branch_def)
    next
      case (Inr res)
      obtain h2 w3 where t: "await_hook (hook_of cfg onExpertEnd) res (env_end_calls tenv) w2 = (h2, w3)"
        by (cases "await_hook (hook_of cfg onExpertEnd) res (env_end_calls tenv) w2")
      show ?thesis
      proof (cases h2)
        case (Some x)
        with Inr None s bp call t assms show ?thesis by (simp add: expert_branch_def)
      next
        case None
        with Inr \<open>h1 = None\<close> s bp call t assms have "r = res" by (simp add: expert_branch_def)
        moreover from call Inr have "agent res = name e" by (auto dest: callAgent_agent)
        ultimately show ?thesis by simp
      qed
    qed
  qed
qed

lemma expert_branch_finish:
  "expert_branch rt e task cfg (tenv\<lparr>env_finish := t\<rparr>) w = expert_branch rt e task cfg tenv w"
  by (simp add: expert_branch_def cong: prod.case_cong option.case_cong sum.case_cong)

text \<open>
  Claim C1. Whatever the moments \<open>finish\<close> at which the branches settle, a collection
  returned by \<open>callExpertsParallel\<close> has one entry for each enabled expert, and the
  entry at index \<open>i\<close> is the outcome of the branch of the \<open>i\<close>-th enabled expert and
  carries its name.
\<close>

theorem fan_out_keeps_task_order:
  assumes "fst (callExpertsParallel rt exps task cfg (\<lambda>i. (tenvs i)\<lparr>env_finish := finish i\<rparr>) w) =
             Some (Inr rs)"
  shows "length rs = length (enabled_experts exps) \<and>
         (\<forall>i<length rs.
            fst (expert_branch rt (enabled_experts exps ! i) task cfg (tenvs i) w) = Inr (rs ! i) \<and>
            agent (rs ! i) = name (enabled_experts exps ! i))"
proof -
  let ?tenvs = "\<lambda>i. (tenvs i)\<lparr>env_finish := finish i\<rparr>"
  let ?n = "length (enabled_experts exps)"
  let ?out = "branch_outcome rt exps task cfg ?tenvs w"
  have out: "?out i = fst (expert_branch rt (enabled_experts exps ! i) task cfg (tenvs i) w)" for i
    by (simp add: branch_outcome_def expert_branch_finish)
  from assms have none: "filter (\<lambda>i. isl (?out i)) (completion_order ?tenvs ?n) = []"
    and rs: "rs = map (\<lambda>j. projr (?out j)) [0..<?n]"
    by (auto simp: callExpertsParallel_result split: list.splits)
  have len: "length rs = ?n" using rs by simp
  have each: "fst (expert_branch rt (enabled_experts exps ! i) task cfg (tenvs i) w) = Inr (rs ! i) \<and>
            agent (rs ! i) = name (enabled_experts exps ! i)" if "i < length rs" for i
  proof -
    from that len have i: "i < ?n" by simp
    then have "i \<in> set (completion_order ?tenvs ?n)"
      by (simp add: completion_order_perm(2))
    with none have "\<not> isl (?out i)" by (auto simp: filter_empty_conv)
    then have "?out i = Inr (projr (?out i))" by (cases "?out i") simp_all
    moreover have "rs ! i = projr (?out i)" using rs i by simp
    ultimately have e: "fst (expert_branch rt (enabled_experts exps ! i) task cfg (tenvs i) w) = Inr (rs ! i)"
      using out[of i] by simp
    from expert_branch_agent[OF e] e show ?thesis by simp
  qed
  from len each show ?thesis by blast
qed

lemma sample_once:
  "fst (callAgentOnce rt a p t k c [StdoutData sample_stream, Close] w) =
   Inr (success_result a (asc ''AB'') k)"
proof -
  have "fst (callAgentOnce rt a p t k c ([StdoutData sample_stream] @ Close # []) w) =
   Inr (success_result a (asc ''AB'') k)"
    by (subst callAgentOnce_close) (simp_all add: stdout_of_def decode_sample asc_def)
  then show ?thesis by simp
qed

lemma duo_enabled:
  "enabled_experts duo =
     [\<lparr>name = asc ''arch'', prompt = None, timeout = None, retries = None, enabled = Some True\<rparr>,
      \<lparr>name = asc ''ux'', prompt = None, timeout = None, retries = None, enabled = None\<rparr>]"
  by (simp add: duo_def enabled_experts_def)

lemma duo_first:
  "branch_outcome plain_runtime duo (asc ''T'') DEFAULT_CONFIG duo_envs idle_world 0 =
     Inr ((success_result (asc ''arch'') (asc ''AB'') 0)\<lparr>duration := Some 40\<rparr>)"
proof -
  let ?p = "DEFAULT_EXPERT_PROMPTS (asc ''arch'') (asc ''T'')"
  let ?opts = "\<lparr>opt_timeout = Some 300000, opt_retries = Some 1, opt_isChair = Some False\<rparr>"
  obtain w1 where once: "callAgentOnce plain_runtime (asc ''arch'') ?p 300000 0 1
      [StdoutData sample_stream, Close] idle_world = (Inr (success_result (asc ''arch'') (asc ''AB'') 0), w1)"
    using sample_once[of plain_runtime "asc ''arch''" ?p 300000 0 1 idle_world] by (metis prod.collapse)
  have "callAgent plain_runtime (asc ''arch'') ?p DEFAULT_CONFIG ?opts (\<lambda>k. answering) idle_world =
      (Inr ((success_result (asc ''arch'') (asc ''AB'') 0)\<lparr>duration := Some (env_elapsed ((\<lambda>k. answering) 0))\<rparr>), w1)"
    using once
    by (intro callAgent_first_success)
       (simp_all add: idle_world_def nullish_default_def answering_def success_result_def)
  then have call: "callAgent plain_runtime (asc ''arch'') ?p DEFAULT_CONFIG ?opts (\<lambda>k. answering) idle_world =
      (Inr ((success_result (asc ''arch'') (asc ''AB'') 0)\<lparr>duration := Some 40\<rparr>), w1)"
    by (simp add: answering_def)
  have t: "or_default None (timeouts_expert (timeouts DEFAULT_CONFIG)) = 300000"
    "nullish_default None (expertRetries (retry DEFAULT_CONFIG)) = 1"
    "hooks DEFAULT_CONFIG = None"
    by (simp_all add: or_default_def nullish_default_def DEFAULT_CONFIG_def)
  show ?thesis
    unfolding branch_outcome_def duo_enabled expert_branch_def
    by (simp add: t buildPrompt_def default_prompt_own await_hook_def hook_of_def duo_envs_def call)
qed

lemma duo_second:
  "branch_outcome plain_runtime duo (asc ''T'') DEFAULT_CONFIG duo_envs idle_world 1 =
     Inr (empty_result (asc ''ux'') (asc ''boom'') 1)"
proof -
  let ?p = "DEFAULT_EXPERT_PROMPTS (asc ''ux'') (asc ''T'')"
  let ?opts = "\<lparr>opt_timeout = Some 300000, opt_retries = Some 1, opt_isChair = Some False\<rparr>"
  have call: "fst (callAgent plain_runtime (asc ''ux'') ?p DEFAULT_CONFIG ?opts (\<lambda>k. silent) idle_world) =
      Inr (empty_result (asc ''ux'') (asc ''boom'') 1)"
    by (simp add: callAgent_def callAgent_loop.simps silent_once silent_def idle_world_def
      DEFAULT_CONFIG_def error_hook_def backoff_sleep_def calculateRetryDelay_def ext_run_def
      empty_result_def set_add_def set_delete_def Let_def)
  have t: "or_default None (timeouts_expert (timeouts DEFAULT_CONFIG)) = 300000"
    "nullish_default None (expertRetries (retry DEFAULT_CONFIG)) = 1"
    "hooks DEFAULT_CONFIG = None"
    by (simp_all add: or_default_def nullish_default_def DEFAULT_CONFIG_def)
  obtain x w1 where c: "callAgent plain_runtime (asc ''ux'') ?p DEFAULT_CONFIG ?opts (\<lambda>k. silent) idle_world = (x, w1)"
    by (cases "callAgent plain_runtime (asc ''ux'') ?p DEFAULT_CONFIG ?opts (\<lambda>k. silent) idle_world")
  with call have x: "x = Inr (empty_result (asc ''ux'') (asc ''boom'') 1)" by simp
  show ?thesis
    unfolding branch_outcome_def duo_enabled expert_branch_def
    by (simp add: t buildPrompt_def default_prompt_own await_hook_def hook_of_def duo_envs_def c x)
qed

lemma duo_order: "completion_order duo_envs 2 = [1, 0]"
proof -
  have "[0..<2] = [0, Suc 0]" by (simp add: upt_rec)
  then show ?thesis by (simp add: completion_order_def duo_envs_def)
qed

lemma duo_result:
  "fst (callExpertsParallel plain_runtime duo (asc ''T'') DEFAULT_CONFIG duo_envs idle_world) =
     Some (Inr [(success_result (asc ''arch'') (asc ''AB'') 0)\<lparr>duration := Some 40\<rparr>,
                empty_result (asc ''ux'') (asc ''boom'') 1])"
proof -
  have n: "length (enabled_experts duo) = 2" by (simp add: duo_enabled)
  have u: "[0..<2] = [0, Suc 0]" by (simp add: upt_rec)
  show ?thesis
    unfolding callExpertsParallel_result n duo_order
    using duo_first duo_second by (simp add: u)
qed

theorem fan_out_keeps_task_order_witness:
  "fst (callExpertsParallel plain_runtime duo (asc ''T'') DEFAULT_CONFIG
          (\<lambda>i. (duo_envs i)\<lparr>env_finish := (if i = 0 then 9 else 1)\<rparr>) idle_world) =
     Some (Inr [(success_result (asc ''arch'') (asc ''AB'') 0)\<lparr>duration := Some 40\<rparr>,
                empty_result (asc ''ux'') (asc ''boom'') 1]) \<and>
   completion_order (\<lambda>i. (duo_envs i)\<lparr>env_finish := (if i = 0 then 9 else 1)\<rparr>) 2 = [1, 0] \<and>
   length [(success_result (asc ''arch'') (asc ''AB'') 0)\<lparr>duration := Some 40\<rparr>,
           empty_result (asc ''ux'') (asc ''boom'') 1] = length (enabled_experts duo) \<and>
   map agent [(success_result (asc ''arch'') (asc ''AB'') 0)\<lparr>duration := Some 40\<rparr>,
              empty_result (asc ''ux'') (asc ''boom'') 1] = map name (enabled_experts duo)"
proof -
  let ?rs = "[(success_result (asc ''arch'') (asc ''AB'') 0)\<lparr>duration := Some 40\<rparr>,
              empty_result (asc ''ux'') (asc ''boom'') 1]"
  have same: "(\<lambda>i. (duo_envs i)\<lparr>env_finish := (if i = 0 then 9 else 1)\<rparr>) = duo_envs"
    by (rule ext) (simp add: duo_envs_def)
  have h: "fst (callExpertsParallel plain_runtime duo (asc ''T'') DEFAULT_CONFIG
          (\<lambda>i. (duo_envs i)\<lparr>env_finish := (if i = 0 then 9 else 1)\<rparr>) idle_world) = Some (Inr ?rs)"
    unfolding same by (rule duo_result)
  from fan_out_keeps_task_order[OF h]
  have "length ?rs = length (enabled_experts duo)"
    and each: "\<forall>i<length ?rs. agent (?rs ! i) = name (enabled_experts duo ! i)"
    by blast+
  moreover have "map agent ?rs = map name (enabled_experts duo)"
    by (simp add: duo_enabled success_result_def empty_result_def)
  ultimately show ?thesis using h duo_order unfolding same by simp
qed

end
